theory Spec2Isabelle
  imports Complex_Main
begin

section \<open>Data model of the exercise analyzer\<close>

text \<open>
  The development embeds \<^verbatim>\<open>src/exercise_analyzer.py\<close> (class \<^verbatim>\<open>ExerciseAnalyzer\<close>).

  An angle frame is a Python \<^verbatim>\<open>dict\<close> from joint name to angle. It is modelled as an
  association list in insertion order; \<open>map_of\<close> is the lookup, and a dictionary has
  each key once (\<open>wf_frame\<close>). Angles are Python floats; an angle is modelled as the
  rational number it stands for (every finite binary64 value is one), comparisons are
  exact, and every arithmetic result is rounded to binary64 as Python does. Infinities
  and NaN are not modelled.
\<close>

type_synonym frame = "(string \<times> rat) list"

definition wf_frame :: "frame \<Rightarrow> bool" where
  "wf_frame angles = distinct (map fst angles)"

datatype error = KeyError | IndexError | ZeroDivisionError

text \<open>
  One entry of \<^verbatim>\<open>self.exercise_patterns\<close>. The keys \<^verbatim>\<open>'static'\<close>,
  \<^verbatim>\<open>'down_threshold'\<close> and \<^verbatim>\<open>'up_threshold'\<close> are absent from some entries, so these
  fields are optional; the other keys are in every entry.
\<close>

record pattern =
  key_joints :: "string list"
  static :: "bool option"
  down_threshold :: "int option"
  up_threshold :: "int option"
  ideal_range :: "int \<times> int"
  form_checks :: "string list"

text \<open>The catalog, in the insertion order of the dictionary literal (lines 15-57).\<close>

definition exercise_patterns :: "(string \<times> pattern) list" where
  "exercise_patterns =
    [(''pushup'',
        \<lparr>key_joints = [''left_elbow'', ''right_elbow''], static = None,
         down_threshold = Some 90, up_threshold = Some 160,
         ideal_range = (70, 90), form_checks = [''back_straight'', ''full_range'']\<rparr>),
     (''squat'',
        \<lparr>key_joints = [''left_knee'', ''right_knee''], static = None,
         down_threshold = Some 90, up_threshold = Some 160,
         ideal_range = (80, 100), form_checks = [''knees_aligned'', ''back_straight'']\<rparr>),
     (''situp'',
        \<lparr>key_joints = [''left_hip'', ''right_hip''], static = None,
         down_threshold = Some 150, up_threshold = Some 70,
         ideal_range = (45, 70), form_checks = [''controlled_movement'', ''neck_neutral'']\<rparr>),
     (''jumping_jack'',
        \<lparr>key_joints = [''left_shoulder'', ''right_shoulder''], static = None,
         down_threshold = Some 30, up_threshold = Some 150,
         ideal_range = (150, 180), form_checks = [''synchronized_movement'']\<rparr>),
     (''lunge'',
        \<lparr>key_joints = [''left_knee'', ''right_knee''], static = None,
         down_threshold = Some 90, up_threshold = Some 160,
         ideal_range = (85, 95), form_checks = [''knee_alignment'', ''balance'']\<rparr>),
     (''plank'',
        \<lparr>key_joints = [''left_hip'', ''right_hip''], static = Some True,
         down_threshold = None, up_threshold = None,
         ideal_range = (170, 180), form_checks = [''back_straight'', ''core_engaged'']\<rparr>)]"

text \<open>\<^verbatim>\<open>pattern.get('static', False)\<close>\<close>

definition get_static :: "pattern \<Rightarrow> bool" where
  "get_static pat = (case static pat of None \<Rightarrow> False | Some b \<Rightarrow> b)"

text \<open>The fields assigned by \<^verbatim>\<open>__init__\<close> (the catalog is the constant above).\<close>

record analyzer =
  exercise_count :: int
  stage :: "string option"
  current_exercise :: "string option"
  angle_history :: "frame list"
  feedback_messages :: "string list"

definition new_analyzer :: analyzer where
  "new_analyzer =
    \<lparr>exercise_count = 0, stage = None, current_exercise = None,
     angle_history = [], feedback_messages = []\<rparr>"

text \<open>
  \<^verbatim>\<open>deque(maxlen=30).append\<close>: a full deque drops its oldest element.
  \<^verbatim>\<open>list(d)[-n:]\<close> keeps the last \<open>n\<close> elements, or all of them when there are fewer.
  \<^verbatim>\<open>x or 'unknown'\<close> yields \<^verbatim>\<open>'unknown'\<close> when \<open>x\<close> is \<^verbatim>\<open>None\<close> or the empty string.
\<close>

definition deque_append :: "frame list \<Rightarrow> frame \<Rightarrow> frame list" where
  "deque_append d x = (if length d < 30 then d @ [x] else tl d @ [x])"

definition last_n :: "nat \<Rightarrow> 'a list \<Rightarrow> 'a list" where
  "last_n n xs = drop (length xs - n) xs"

definition or_unknown :: "string option \<Rightarrow> string" where
  "or_unknown x = (case x of None \<Rightarrow> ''unknown'' | Some s \<Rightarrow> if s = [] then ''unknown'' else s)"

section \<open>Binary64 arithmetic\<close>

text \<open>
  \<open>round_binary64\<close> rounds a rational to the binary64 grid: 53 significant bits, ties to
  the even significand, subnormal spacing below \<open>2\<^sup>-\<^sup>1\<^sup>0\<^sup>2\<^sup>2\<close>. Overflow to infinity is not
  modelled; the angles and scores of this program stay far below it.
  \<open>round_half_even\<close> rounds to the nearest integer with ties to the even one,
  \<open>bit_length\<close> is the length of the binary numeral of a positive integer, and
  \<open>floor_log2 x\<close> is the exponent \<open>e\<close> with \<open>2\<^sup>e \<le> x < 2\<^sup>e\<^sup>+\<^sup>1\<close>.
\<close>

definition round_half_even :: "rat \<Rightarrow> int" where
  "round_half_even x =
    (let f = \<lfloor>x\<rfloor>; r = x - of_int f
     in if r < 1 / 2 then f
        else if 1 / 2 < r then f + 1
        else if even f then f else f + 1)"

function bit_length :: "int \<Rightarrow> nat" where
  "bit_length n = (if n \<le> 0 then 0 else Suc (bit_length (n div 2)))"
  by pat_completeness auto
termination
  by (relation "measure nat") auto

declare bit_length.simps [simp del]

definition pow2 :: "int \<Rightarrow> rat" where
  "pow2 e = (if 0 \<le> e then 2 ^ nat e else 1 / 2 ^ nat (- e))"

definition floor_log2 :: "rat \<Rightarrow> int" where
  "floor_log2 x =
    (let (a, b) = quotient_of x;
         c = int (bit_length a) - int (bit_length b)
     in if x < pow2 c then c - 1 else c)"

definition round_binary64 :: "rat \<Rightarrow> rat" where
  "round_binary64 x =
    (if x = 0 then 0
     else
       let e = max (floor_log2 \<bar>x\<bar>) (- 1022);
           ulp = pow2 (e - 52)
       in sgn x * of_int (round_half_even (\<bar>x\<bar> / ulp)) * ulp)"

text \<open>
  The float operations of the program: \<^verbatim>\<open>x - y\<close>, \<^verbatim>\<open>x + y\<close>, \<^verbatim>\<open>x / y\<close> and
  \<^verbatim>\<open>x * y\<close> on floats (an integer operand is converted exactly), \<^verbatim>\<open>a / b\<close> on two
  integers (the quotient rounded to the nearest binary64 value, \<^verbatim>\<open>ZeroDivisionError\<close>
  for a zero divisor), and \<^verbatim>\<open>int(x)\<close>, which drops the fraction. \<^verbatim>\<open>abs\<close> and the
  comparisons are exact.
\<close>

definition float_sub :: "rat \<Rightarrow> rat \<Rightarrow> rat" where
  "float_sub x y = round_binary64 (x - y)"

definition float_add :: "rat \<Rightarrow> rat \<Rightarrow> rat" where
  "float_add x y = round_binary64 (x + y)"

definition float_div :: "rat \<Rightarrow> rat \<Rightarrow> rat" where
  "float_div x y = round_binary64 (x / y)"

definition int_truediv :: "int \<Rightarrow> int \<Rightarrow> error + rat" where
  "int_truediv a b =
    (if b = 0 then Inl ZeroDivisionError else Inr (round_binary64 (of_int a / of_int b)))"

definition float_mul :: "rat \<Rightarrow> rat \<Rightarrow> rat" where
  "float_mul x y = round_binary64 (x * y)"

definition int_of_float :: "rat \<Rightarrow> int" where
  "int_of_float x = (if 0 \<le> x then \<lfloor>x\<rfloor> else \<lceil>x\<rceil>)"

section \<open>Exercise detection\<close>

text \<open>\<^verbatim>\<open>_check_static_position\<close> (lines 96-108): both loops return False at the first
  key joint reading outside the ideal range.\<close>

definition check_static_position :: "pattern \<Rightarrow> analyzer \<Rightarrow> bool" where
  "check_static_position pat st =
    (let recent_angles = last_n 10 (angle_history st);
         (min_angle, max_angle) = ideal_range pat
     in list_all (\<lambda>angles.
          list_all (\<lambda>joint.
            case map_of angles joint of
              None \<Rightarrow> True
            | Some angle \<Rightarrow> of_int min_angle \<le> angle \<and> angle \<le> of_int max_angle)
          (key_joints pat))
        recent_angles)"

text \<open>\<^verbatim>\<open>[a.get(joint, 0) for a in recent_angles if joint in a]\<close>\<close>

definition joint_readings :: "string \<Rightarrow> frame list \<Rightarrow> rat list" where
  "joint_readings joint recent_angles =
    map (\<lambda>a. case map_of a joint of None \<Rightarrow> 0 | Some v \<Rightarrow> v)
      (filter (\<lambda>a. map_of a joint \<noteq> None) recent_angles)"

text \<open>\<^verbatim>\<open>max(joint_angles) - min(joint_angles)\<close>, evaluated only under
  \<^verbatim>\<open>len(joint_angles) > 0\<close>.\<close>

definition angle_range_exceeds :: "rat list \<Rightarrow> rat \<Rightarrow> bool" where
  "angle_range_exceeds joint_angles bound =
    (case joint_angles of
       [] \<Rightarrow> False
     | x # xs \<Rightarrow> float_sub (fold max xs x) (fold min xs x) > bound)"

text \<open>\<^verbatim>\<open>_check_dynamic_movement\<close> (lines 110-122)\<close>

definition check_dynamic_movement :: "pattern \<Rightarrow> analyzer \<Rightarrow> bool" where
  "check_dynamic_movement pat st =
    (let recent_angles = last_n 15 (angle_history st)
     in list_ex (\<lambda>joint. angle_range_exceeds (joint_readings joint recent_angles) 40)
          (key_joints pat))"

text \<open>\<^verbatim>\<open>_matches_pattern\<close> (lines 87-94)\<close>

definition matches_pattern :: "string \<Rightarrow> pattern \<Rightarrow> analyzer \<Rightarrow> bool" where
  "matches_pattern exercise_name pat st =
    (if get_static pat then check_static_position pat st
     else check_dynamic_movement pat st)"

text \<open>The loop of lines 80-85 over \<^verbatim>\<open>self.exercise_patterns.items()\<close>, with the
  fall-through return of line 85.\<close>

fun detect_loop :: "(string \<times> pattern) list \<Rightarrow> analyzer \<Rightarrow> string \<times> analyzer" where
  "detect_loop [] st = (or_unknown (current_exercise st), st)"
| "detect_loop ((exercise, pat) # rest) st =
    (if matches_pattern exercise pat st
     then (exercise, st\<lparr>current_exercise := Some exercise\<rparr>)
     else detect_loop rest st)"

text \<open>\<^verbatim>\<open>detect_exercise\<close> (lines 59-85). The argument \<^verbatim>\<open>landmarks\<close> is never read and is
  left out. The result is the returned label and the analyzer after the call.\<close>

definition detect_exercise :: "frame \<Rightarrow> analyzer \<Rightarrow> string \<times> analyzer" where
  "detect_exercise angles st =
    (if angles = [] then (''unknown'', st)
     else
       let st1 = st\<lparr>angle_history := deque_append (angle_history st) angles\<rparr>
       in if length (angle_history st1) < 10
          then (or_unknown (current_exercise st1), st1)
          else detect_loop exercise_patterns st1)"

section \<open>Repetition counting\<close>

text \<open>The state machine of lines 153-173 for one angle reading: the three branches on
  \<^verbatim>\<open>exercise_type\<close>, each an \<^verbatim>\<open>if\<close>/\<^verbatim>\<open>elif\<close> on the angle and the stage.\<close>

definition rep_step :: "string \<Rightarrow> rat \<Rightarrow> int \<Rightarrow> int \<Rightarrow> analyzer \<Rightarrow> analyzer" where
  "rep_step exercise_type angle down up st =
    (if exercise_type \<in> set [''pushup'', ''squat'', ''lunge''] then
       (if angle < of_int down \<and> stage st \<noteq> Some ''down''
        then st\<lparr>stage := Some ''down''\<rparr>
        else if angle > of_int up \<and> stage st = Some ''down''
        then st\<lparr>stage := Some ''up'', exercise_count := exercise_count st + 1\<rparr>
        else st)
     else if exercise_type = ''situp'' then
       (if angle > of_int down \<and> stage st \<noteq> Some ''down''
        then st\<lparr>stage := Some ''down''\<rparr>
        else if angle < of_int up \<and> stage st = Some ''down''
        then st\<lparr>stage := Some ''up'', exercise_count := exercise_count st + 1\<rparr>
        else st)
     else if exercise_type = ''jumping_jack'' then
       (if angle < of_int down \<and> stage st \<noteq> Some ''down''
        then st\<lparr>stage := Some ''down''\<rparr>
        else if angle > of_int up \<and> stage st = Some ''down''
        then st\<lparr>stage := Some ''up'', exercise_count := exercise_count st + 1\<rparr>
        else st)
     else st)"

text \<open>The loop of lines 149-175 over the key joints; it ends (\<^verbatim>\<open>break\<close>) at the first
  joint that the frame holds.\<close>

fun count_loop :: "string list \<Rightarrow> frame \<Rightarrow> string \<Rightarrow> int \<Rightarrow> int \<Rightarrow> analyzer \<Rightarrow> analyzer" where
  "count_loop [] angles exercise_type down up st = st"
| "count_loop (joint # rest) angles exercise_type down up st =
    (case map_of angles joint of
       None \<Rightarrow> count_loop rest angles exercise_type down up st
     | Some angle \<Rightarrow> rep_step exercise_type angle down up st)"

text \<open>\<^verbatim>\<open>count_repetitions\<close> (lines 124-177). Reading \<^verbatim>\<open>pattern['down_threshold']\<close> or
  \<^verbatim>\<open>pattern['up_threshold']\<close> from an entry without that key raises \<^verbatim>\<open>KeyError\<close>. The
  result is the returned count and the analyzer after the call.\<close>

definition count_repetitions :: "frame \<Rightarrow> string \<Rightarrow> analyzer \<Rightarrow> error + (int \<times> analyzer)" where
  "count_repetitions angles exercise_type st =
    (case map_of exercise_patterns exercise_type of
       None \<Rightarrow> Inr (exercise_count st, st)
     | Some pat \<Rightarrow>
         if get_static pat then Inr (exercise_count st, st)
         else
           (case down_threshold pat of
              None \<Rightarrow> Inl KeyError
            | Some down \<Rightarrow>
                (case up_threshold pat of
                   None \<Rightarrow> Inl KeyError
                 | Some up \<Rightarrow>
                     let st' = count_loop (key_joints pat) angles exercise_type down up st
                     in Inr (exercise_count st', st'))))"

section \<open>Form evaluation\<close>

text \<open>
  String formatting used by the feedback messages. \<open>show_nat\<close> is the decimal numeral of
  a natural number; \<open>format_0f\<close> is \<^verbatim>\<open>f"{angle:.0f}"\<close>, which rounds to the nearest
  integer with ties to the even one and keeps the sign of a negative value;
  \<open>title\<close> is \<^verbatim>\<open>str.title()\<close> on ASCII text: a letter is upper case after a
  character that is not a letter and lower case after a letter.
\<close>

fun show_nat :: "nat \<Rightarrow> string" where
  "show_nat n =
    (if n < 10 then [char_of (48 + n)]
     else show_nat (n div 10) @ [char_of (48 + n mod 10)])"

definition show_int :: "int \<Rightarrow> string" where
  "show_int i = (if i < 0 then ''-'' @ show_nat (nat (- i)) else show_nat (nat i))"

definition format_0f :: "rat \<Rightarrow> string" where
  "format_0f x =
    (if x < 0 then ''-'' @ show_nat (nat (round_half_even (- x)))
     else show_nat (nat (round_half_even x)))"

definition is_upper :: "char \<Rightarrow> bool" where
  "is_upper c = (65 \<le> (of_char c :: nat) \<and> (of_char c :: nat) \<le> 90)"

definition is_lower :: "char \<Rightarrow> bool" where
  "is_lower c = (97 \<le> (of_char c :: nat) \<and> (of_char c :: nat) \<le> 122)"

definition to_upper :: "char \<Rightarrow> char" where
  "to_upper c = (if is_lower c then char_of ((of_char c :: nat) - 32) else c)"

definition to_lower :: "char \<Rightarrow> char" where
  "to_lower c = (if is_upper c then char_of ((of_char c :: nat) + 32) else c)"

fun title_from :: "bool \<Rightarrow> string \<Rightarrow> string" where
  "title_from prev_cased [] = []"
| "title_from prev_cased (c # cs) =
    (if is_upper c \<or> is_lower c
     then (if prev_cased then to_lower c else to_upper c) # title_from True cs
     else c # title_from False cs)"

definition title :: "string \<Rightarrow> string" where
  "title s = title_from False s"

text \<open>\<^verbatim>\<open>joint.replace('_', ' ')\<close>\<close>

definition replace_underscores :: "string \<Rightarrow> string" where
  "replace_underscores s = map (\<lambda>c. if c = CHR ''_'' then CHR '' '' else c) s"

text \<open>The degree sign U+00B0 that ends two of the messages.\<close>

definition degree_sign :: string where
  "degree_sign = [CHR 0xB0]"

definition go_deeper_message :: "string \<Rightarrow> rat \<Rightarrow> string" where
  "go_deeper_message joint angle =
    ''Go deeper! '' @ title (replace_underscores joint) @ '' angle: '' @ format_0f angle
      @ degree_sign"

definition too_low_message :: string where
  "too_low_message = ''Don'' @ [CHR 0x27] @ ''t go too low! Risk of injury.''"

definition come_up_message :: "int \<Rightarrow> string" where
  "come_up_message ideal_min = ''Come up higher! Target: '' @ show_int ideal_min @ degree_sign"

definition hips_sag_message :: string where
  "hips_sag_message = ''Don'' @ [CHR 0x27] @ ''t let your hips sag!''"

text \<open>The body of the loop of lines 199-211 for a key joint that the frame holds: the
  messages it appends.\<close>

definition joint_feedback :: "string \<Rightarrow> string \<Rightarrow> rat \<Rightarrow> int \<Rightarrow> int \<Rightarrow> analyzer \<Rightarrow> string list" where
  "joint_feedback exercise_type joint angle ideal_min ideal_max st =
    (if stage st = Some ''down'' then
       (if exercise_type \<in> set [''pushup'', ''squat''] then
          (if angle > of_int ideal_max then [go_deeper_message joint angle]
           else if angle < of_int ideal_min then [too_low_message]
           else [])
        else if exercise_type = ''situp'' then
          (if angle < of_int ideal_min then [come_up_message ideal_min] else [])
        else [])
     else [])"

fun form_loop :: "string list \<Rightarrow> frame \<Rightarrow> string \<Rightarrow> int \<Rightarrow> int \<Rightarrow> analyzer \<Rightarrow> string list \<Rightarrow> string list" where
  "form_loop [] angles exercise_type ideal_min ideal_max st feedback = feedback"
| "form_loop (joint # rest) angles exercise_type ideal_min ideal_max st feedback =
    (case map_of angles joint of
       None \<Rightarrow> form_loop rest angles exercise_type ideal_min ideal_max st feedback
     | Some angle \<Rightarrow>
         form_loop rest angles exercise_type ideal_min ideal_max st
           (feedback @ joint_feedback exercise_type joint angle ideal_min ideal_max st))"

text \<open>Lines 214-220: the messages of the \<^verbatim>\<open>back_straight\<close> check.\<close>

definition back_straight_feedback :: "frame \<Rightarrow> string \<Rightarrow> pattern \<Rightarrow> string list" where
  "back_straight_feedback angles exercise_type pat =
    (if ''back_straight'' \<in> set (form_checks pat) then
       (case map_of angles ''left_hip'' of
          None \<Rightarrow> []
        | Some left_hip \<Rightarrow>
            (case map_of angles ''right_hip'' of
               None \<Rightarrow> []
             | Some right_hip \<Rightarrow>
                 (let hip_avg = float_div (float_add left_hip right_hip) 2
                  in if exercise_type = ''pushup'' \<and> hip_avg < 160
                     then [''Keep your back straight!'']
                     else if exercise_type = ''plank'' \<and> hip_avg < 170
                     then [hips_sag_message]
                     else [])))
     else [])"

text \<open>Lines 222-226: the message of the \<^verbatim>\<open>knees_aligned\<close> check.\<close>

definition knees_aligned_feedback :: "frame \<Rightarrow> pattern \<Rightarrow> string list" where
  "knees_aligned_feedback angles pat =
    (if ''knees_aligned'' \<in> set (form_checks pat) then
       (case map_of angles ''left_knee'' of
          None \<Rightarrow> []
        | Some left_knee \<Rightarrow>
            (case map_of angles ''right_knee'' of
               None \<Rightarrow> []
             | Some right_knee \<Rightarrow>
                 (let knee_diff = \<bar>float_sub left_knee right_knee\<bar>
                  in if knee_diff > 15 then [''Keep knees aligned!''] else [])))
     else [])"

text \<open>\<^verbatim>\<open>evaluate_form\<close> (lines 179-228); it reads the stage and changes no field.\<close>

definition evaluate_form :: "frame \<Rightarrow> string \<Rightarrow> analyzer \<Rightarrow> string list" where
  "evaluate_form angles exercise_type st =
    (case map_of exercise_patterns exercise_type of
       None \<Rightarrow> []
     | Some pat \<Rightarrow>
         (let (ideal_min, ideal_max) = ideal_range pat;
              feedback = form_loop (key_joints pat) angles exercise_type ideal_min ideal_max st []
          in feedback @ back_straight_feedback angles exercise_type pat
               @ knees_aligned_feedback angles pat))"

section \<open>Quality score and performance summary\<close>

text \<open>
  \<^verbatim>\<open>xs[i]\<close> on a list (a negative index counts from the end, an index out of range
  raises \<^verbatim>\<open>IndexError\<close>) and \<^verbatim>\<open>d[k]\<close> on a dictionary (a missing key raises
  \<^verbatim>\<open>KeyError\<close>).
\<close>

definition list_get :: "'a list \<Rightarrow> int \<Rightarrow> error + 'a" where
  "list_get xs i =
    (let n = int (length xs);
         j = (if i < 0 then i + n else i)
     in if 0 \<le> j \<and> j < n then Inr (xs ! nat j) else Inl IndexError)"

definition dict_get :: "frame \<Rightarrow> string \<Rightarrow> error + rat" where
  "dict_get d k = (case map_of d k of None \<Rightarrow> Inl KeyError | Some v \<Rightarrow> Inr v)"

text \<open>The inner loop of lines 251-258 over the keys of \<^verbatim>\<open>recent_angles[i]\<close>;
  \<open>cur\<close> is \<^verbatim>\<open>recent_angles[i]\<close>, \<open>prev\<close> is \<^verbatim>\<open>recent_angles[i-1]\<close>, and
  \<open>scores\<close> is the list \<^verbatim>\<open>consistency_scores\<close> built so far.\<close>

fun joint_scores :: "string list \<Rightarrow> frame \<Rightarrow> frame \<Rightarrow> int list \<Rightarrow> error + int list" where
  "joint_scores [] cur prev scores = Inr scores"
| "joint_scores (joint # rest) cur prev scores =
    (if map_of prev joint \<noteq> None then
       (case dict_get cur joint of
          Inl e \<Rightarrow> Inl e
        | Inr c \<Rightarrow>
            (case dict_get prev joint of
               Inl e \<Rightarrow> Inl e
             | Inr p \<Rightarrow>
                 (let change = \<bar>float_sub c p\<bar>
                  in joint_scores rest cur prev
                       (scores @ [if 1 < change \<and> change < 20 then 1 else 0]))))
     else joint_scores rest cur prev scores)"

text \<open>The outer loop of lines 248-258 over \<^verbatim>\<open>range(1, len(recent_angles))\<close>.\<close>

fun score_loop :: "int list \<Rightarrow> frame list \<Rightarrow> int list \<Rightarrow> error + int list" where
  "score_loop [] recent_angles scores = Inr scores"
| "score_loop (i # rest) recent_angles scores =
    (case list_get recent_angles i of
       Inl e \<Rightarrow> Inl e
     | Inr cur \<Rightarrow>
         if cur = [] then score_loop rest recent_angles scores
         else
           (case list_get recent_angles (i - 1) of
              Inl e \<Rightarrow> Inl e
            | Inr prev \<Rightarrow>
                if prev = [] then score_loop rest recent_angles scores
                else
                  (case joint_scores (map fst cur) cur prev scores of
                     Inl e \<Rightarrow> Inl e
                   | Inr scores' \<Rightarrow> score_loop rest recent_angles scores')))"

text \<open>\<^verbatim>\<open>_calculate_quality_score\<close> (lines 239-262)\<close>

definition calculate_quality_score :: "analyzer \<Rightarrow> error + int" where
  "calculate_quality_score st =
    (if length (angle_history st) < 10 then Inr 0
     else
       let recent_angles = last_n 10 (angle_history st)
       in case score_loop [1..int (length recent_angles) - 1] recent_angles [] of
            Inl e \<Rightarrow> Inl e
          | Inr consistency_scores \<Rightarrow>
              if consistency_scores \<noteq> [] then
                (case int_truediv (sum_list consistency_scores)
                        (int (length consistency_scores)) of
                   Inl e \<Rightarrow> Inl e
                 | Inr q \<Rightarrow> Inr (int_of_float (float_mul q 100)))
              else Inr 0)"

text \<open>\<^verbatim>\<open>get_performance_summary\<close> (lines 230-237): the returned dictionary.\<close>

record summary =
  exercise :: "string option"
  repetitions :: int
  current_stage :: "string option"
  quality_score :: int

definition get_performance_summary :: "analyzer \<Rightarrow> error + summary" where
  "get_performance_summary st =
    (case calculate_quality_score st of
       Inl e \<Rightarrow> Inl e
     | Inr q \<Rightarrow>
         Inr \<lparr>exercise = current_exercise st, repetitions = exercise_count st,
              current_stage = stage st, quality_score = q\<rparr>)"

section \<open>Reset, and sequences of calls\<close>

text \<open>\<^verbatim>\<open>reset\<close> (lines 264-270)\<close>

definition reset :: "analyzer \<Rightarrow> analyzer" where
  "reset st =
    st\<lparr>exercise_count := 0, stage := None, current_exercise := None,
       angle_history := [], feedback_messages := []\<rparr>"

text \<open>
  The public methods of the class as calls, and the analyzer after a call. A call that
  raises leaves the analyzer as it was when the exception was raised; the only
  raising points modelled lie before any assignment.
\<close>

datatype call =
    DetectExercise frame
  | CountRepetitions frame string
  | EvaluateForm frame string
  | GetPerformanceSummary
  | Reset

fun step :: "call \<Rightarrow> analyzer \<Rightarrow> analyzer" where
  "step (DetectExercise angles) st = snd (detect_exercise angles st)"
| "step (CountRepetitions angles exercise_type) st =
    (case count_repetitions angles exercise_type st of
       Inl e \<Rightarrow> st
     | Inr (n, st') \<Rightarrow> st')"
| "step (EvaluateForm angles exercise_type) st = st"
| "step GetPerformanceSummary st = st"
| "step Reset st = reset st"

fun run :: "call list \<Rightarrow> analyzer \<Rightarrow> analyzer" where
  "run [] st = st"
| "run (c # cs) st = run cs (step c st)"

section \<open>Notions used to state the properties\<close>

text \<open>The angle that the counter reads: the angle of the first key joint, in the listed
  order, that the frame holds; \<open>None\<close> when the frame holds no key joint.\<close>

fun selected_angle :: "string list \<Rightarrow> frame \<Rightarrow> rat option" where
  "selected_angle [] angles = None"
| "selected_angle (joint # rest) angles =
    (case map_of angles joint of
       None \<Rightarrow> selected_angle rest angles
     | Some angle \<Rightarrow> Some angle)"

text \<open>The names of the catalog.\<close>

definition catalog_names :: "string list" where
  "catalog_names = map fst exercise_patterns"

text \<open>
  The comparisons of the quality score. The joints shared by a frame and the frame before
  it are the joints present in both. \<open>exact_delta\<close> is the absolute difference of the
  two angles of a shared joint, and \<open>angle_delta\<close> is that difference as the program
  computes it, with the subtraction rounded to binary64 (both are read at shared joints
  only, where both lookups succeed). Over a window of frames, \<open>total_comparisons\<close>
  counts the shared joints of every consecutive pair, \<open>consistent_count\<close> those whose
  computed delta lies strictly between 1 and 20, and \<open>spec_consistent_count\<close> those
  whose exact delta does.
\<close>

definition shared_joints :: "frame \<Rightarrow> frame \<Rightarrow> string set" where
  "shared_joints cur prev = fst ` set cur \<inter> fst ` set prev"

definition exact_delta :: "frame \<Rightarrow> frame \<Rightarrow> string \<Rightarrow> rat" where
  "exact_delta cur prev joint = \<bar>the (map_of cur joint) - the (map_of prev joint)\<bar>"

definition angle_delta :: "frame \<Rightarrow> frame \<Rightarrow> string \<Rightarrow> rat" where
  "angle_delta cur prev joint =
    \<bar>float_sub (the (map_of cur joint)) (the (map_of prev joint))\<bar>"

definition consistent_joints :: "frame \<Rightarrow> frame \<Rightarrow> string set" where
  "consistent_joints cur prev =
    {joint \<in> shared_joints cur prev.
       1 < angle_delta cur prev joint \<and> angle_delta cur prev joint < 20}"

definition spec_consistent_joints :: "frame \<Rightarrow> frame \<Rightarrow> string set" where
  "spec_consistent_joints cur prev =
    {joint \<in> shared_joints cur prev.
       1 < exact_delta cur prev joint \<and> exact_delta cur prev joint < 20}"

definition total_comparisons :: "frame list \<Rightarrow> nat" where
  "total_comparisons recent =
    (\<Sum>i \<leftarrow> [1..<length recent]. card (shared_joints (recent ! i) (recent ! (i - 1))))"

definition consistent_count :: "frame list \<Rightarrow> nat" where
  "consistent_count recent =
    (\<Sum>i \<leftarrow> [1..<length recent]. card (consistent_joints (recent ! i) (recent ! (i - 1))))"

definition spec_consistent_count :: "frame list \<Rightarrow> nat" where
  "spec_consistent_count recent =
    (\<Sum>i \<leftarrow> [1..<length recent].
        card (spec_consistent_joints (recent ! i) (recent ! (i - 1))))"

text \<open>The score as the description words it: 100 times the consistent count over the
  total, rounded to the nearest integer, with the deltas taken exactly.\<close>

definition spec_quality_score :: "frame list \<Rightarrow> int" where
  "spec_quality_score recent =
    round (100 * (of_nat (spec_consistent_count recent) :: rat)
             / of_nat (total_comparisons recent))"

text \<open>The scores that the inner loop appends for one pair of frames, and the whole list
  \<^verbatim>\<open>consistency_scores\<close> for a window.\<close>

definition pair_scores :: "string list \<Rightarrow> frame \<Rightarrow> frame \<Rightarrow> int list" where
  "pair_scores js cur prev =
    map (\<lambda>joint. if 1 < angle_delta cur prev joint \<and> angle_delta cur prev joint < 20 then 1 else 0)
      (filter (\<lambda>joint. map_of prev joint \<noteq> None) js)"

definition all_scores :: "frame list \<Rightarrow> int list" where
  "all_scores recent =
    concat (map (\<lambda>i. pair_scores (map fst (recent ! i)) (recent ! i) (recent ! (i - 1)))
      [1..<length recent])"

text \<open>Histories used as concrete inputs: one joint whose angle rises by 5 degrees six
  times and then holds, one that holds throughout, one that rises by 5 degrees
  throughout, one whose consecutive frames have no joint in common, and one that
  alternates between 2.0 and 0.9999999999999999 (the binary64 value \<open>1 - 2\<^sup>-\<^sup>5\<^sup>3\<close>).\<close>

definition elbow_frames :: "rat list \<Rightarrow> frame list" where
  "elbow_frames as = map (\<lambda>a. [(''left_elbow'', a)]) as"

definition ramp_then_hold :: "frame list" where
  "ramp_then_hold = elbow_frames [0, 5, 10, 15, 20, 25, 30, 30, 30, 30]"

definition static_hold :: "frame list" where
  "static_hold = elbow_frames [90, 90, 90, 90, 90, 90, 90, 90, 90, 90]"

definition smooth_ramp :: "frame list" where
  "smooth_ramp = elbow_frames [0, 5, 10, 15, 20, 25, 30, 35, 40, 45]"

definition alternating_frames :: "frame list" where
  "alternating_frames =
    [[(''left_elbow'', 90)], [(''left_knee'', 90)], [(''left_elbow'', 95)], [(''left_knee'', 95)],
     [(''left_elbow'', 90)], [(''left_knee'', 90)], [(''left_elbow'', 95)], [(''left_knee'', 95)],
     [(''left_elbow'', 90)], [(''left_knee'', 90)]]"

definition below_one :: rat where
  "below_one = 9007199254740991 / 9007199254740992"

definition near_one_steps :: "frame list" where
  "near_one_steps =
    elbow_frames [2, below_one, 2, below_one, 2, below_one, 2, below_one, 2, below_one]"

section \<open>Detection: empty frames\<close>

text \<open>
  C4. For every analyzer state, \<open>detect_exercise\<close> on the empty frame returns the label
  \<open>''unknown''\<close>, whatever \<open>current_exercise\<close> holds, and the analyzer after the call
  is the analyzer before it: the history and every other field are unchanged.
\<close>

theorem detect_exercise_empty_frame:
  "detect_exercise [] st = (''unknown'', st)"
  by (simp add: detect_exercise_def)

section \<open>Binary64 rounding: properties\<close>

text \<open>Rounding keeps the sign and never crosses an integer below \<open>2\<^sup>5\<^sup>3\<close>: a value that
  is at most such an integer is rounded to at most that integer.\<close>

lemma pow2_powi: "pow2 e = 2 powi e"
  by (simp add: pow2_def power_int_def inverse_eq_divide power_one_over)

lemma pow2_pos: "0 < pow2 e"
  by (simp add: pow2_def)

lemma pow2_nat: "pow2 (int k) = 2 ^ k"
  by (simp add: pow2_def)

lemma pow2_diff: "pow2 (a - b) = pow2 a / pow2 b"
  by (simp add: pow2_powi power_int_diff)

lemma pow2_mono: "a \<le> b \<Longrightarrow> pow2 a \<le> pow2 b"
  by (simp add: pow2_powi power_int_increasing)

lemma pow2_less_imp: "pow2 a < pow2 b \<Longrightarrow> a < b"
  using pow2_mono [of b a] by (cases "a < b") auto

lemma bit_length_pos: "0 < n \<Longrightarrow> bit_length n = Suc (bit_length (n div 2))"
  by (subst bit_length.simps) simp

lemma bit_length_bounds:
  "0 < n \<Longrightarrow> 2 ^ (bit_length n - 1) \<le> n \<and> n < 2 ^ bit_length n"
proof (induction n rule: bit_length.induct)
  case (1 n)
  show ?case
  proof (cases "n div 2 \<le> 0")
    case True
    with 1(2) have "n = 1" by presburger
    then show ?thesis by (simp add: bit_length.simps)
  next
    case False
    then have pos: "0 < n div 2" by simp
    define m where "m = bit_length (n div 2 div 2)"
    have k: "bit_length (n div 2) = Suc m"
      using pos by (simp add: bit_length_pos m_def)
    have bl: "bit_length n = Suc (Suc m)"
      using 1(2) k by (simp add: bit_length_pos)
    from 1 pos have "2 ^ (bit_length (n div 2) - 1) \<le> n div 2 \<and> n div 2 < 2 ^ bit_length (n div 2)"
      by simp
    then have IH: "2 ^ m \<le> n div 2" "n div 2 < 2 * 2 ^ m"
      by (simp_all add: k)
    define p where "p = (2::int) ^ m"
    from IH have "p \<le> n div 2" "n div 2 < 2 * p" by (simp_all add: p_def)
    then have "2 * p \<le> n" "n < 2 * (2 * p)" by presburger+
    then show ?thesis by (simp add: bl p_def)
  qed
qed

lemma floor_log2_lower:
  assumes "0 < x"
  shows "pow2 (floor_log2 x) \<le> x"
proof -
  obtain a b where q: "quotient_of x = (a, b)" by (cases "quotient_of x")
  then have b: "0 < b" and x: "x = of_int a / of_int b"
    by (simp_all add: quotient_of_denom_pos quotient_of_div)
  with assms have a: "0 < a"
    by (simp add: zero_less_divide_iff)
  let ?c = "int (bit_length a) - int (bit_length b)"
  show ?thesis
  proof (cases "x < pow2 ?c")
    case False
    then show ?thesis using q by (simp add: floor_log2_def)
  next
    case True
    obtain m where la: "bit_length a = Suc m"
      using a by (simp add: bit_length_pos)
    have "(2::int) ^ m \<le> a" "b \<le> 2 ^ bit_length b"
      using bit_length_bounds [OF a] bit_length_bounds [OF b] by (simp_all add: la)
    then have "(of_int ((2::int) ^ m) :: rat) \<le> of_int a"
        "(of_int b :: rat) \<le> of_int ((2::int) ^ bit_length b)"
      by (simp_all only: of_int_le_iff)
    then have le: "(2::rat) ^ m \<le> of_int a" "(of_int b :: rat) \<le> 2 ^ bit_length b"
      by simp_all
    have "(2::rat) ^ m / 2 ^ bit_length b \<le> of_int a / of_int b"
    proof (rule frac_le)
      show "(0::rat) \<le> of_int a" using a by simp
      show "(2::rat) ^ m \<le> of_int a" by (rule le(1))
      show "(0::rat) < of_int b" using b by simp
      show "(of_int b :: rat) \<le> 2 ^ bit_length b" by (rule le(2))
    qed
    moreover have "pow2 (?c - 1) = 2 ^ m / 2 ^ bit_length b"
    proof -
      have "?c - 1 = int m - int (bit_length b)" by (simp add: la)
      then show ?thesis by (simp only: pow2_diff pow2_nat)
    qed
    ultimately have "pow2 (?c - 1) \<le> x" by (simp only: x)
    then show ?thesis using q True by (simp add: floor_log2_def)
  qed
qed

lemma round_half_even_nonneg: "0 \<le> x \<Longrightarrow> 0 \<le> round_half_even x"
  by (simp add: round_half_even_def Let_def)

lemma round_half_even_le_ceiling: "round_half_even x \<le> \<lceil>x\<rceil>"
proof -
  have f: "\<lfloor>x\<rfloor> \<le> \<lceil>x\<rceil>" by (rule floor_le_ceiling)
  have "\<lfloor>x\<rfloor> + 1 \<le> \<lceil>x\<rceil>" if "x - of_int \<lfloor>x\<rfloor> \<noteq> 0"
  proof -
    have "of_int \<lfloor>x\<rfloor> \<le> x" by (rule of_int_floor_le)
    with that have "of_int \<lfloor>x\<rfloor> < x" by linarith
    also have "x \<le> of_int \<lceil>x\<rceil>" by (rule le_of_int_ceiling)
    finally have "\<lfloor>x\<rfloor> < \<lceil>x\<rceil>" by (simp only: of_int_less_iff)
    then show ?thesis by simp
  qed
  with f show ?thesis
    by (auto simp: round_half_even_def Let_def)
qed

lemma round_half_even_le:
  assumes "x \<le> of_int k"
  shows "round_half_even x \<le> k"
proof -
  have "round_half_even x \<le> \<lceil>x\<rceil>" by (rule round_half_even_le_ceiling)
  also have "\<dots> \<le> k" using assms by (simp add: ceiling_le)
  finally show ?thesis .
qed

lemma round_binary64_nonneg:
  assumes "0 \<le> x"
  shows "0 \<le> round_binary64 x"
proof (cases "x = 0")
  case True
  then show ?thesis by (simp add: round_binary64_def)
next
  case False
  with assms have x: "0 < x" by simp
  define u where "u = pow2 (max (floor_log2 x) (- 1022) - 52)"
  have u: "0 < u" by (simp add: u_def pow2_pos)
  have "0 \<le> x / u" using x u by simp
  then have "0 \<le> round_half_even (x / u)" by (rule round_half_even_nonneg)
  then have "0 \<le> (of_int (round_half_even (x / u)) :: rat) * u"
    using u by simp
  moreover have "round_binary64 x = of_int (round_half_even (x / u)) * u"
    using x by (simp add: round_binary64_def Let_def u_def)
  ultimately show ?thesis by simp
qed

lemma round_binary64_le_int:
  assumes "0 < x" and "x \<le> of_int N" and "N < 2 ^ 53"
  shows "round_binary64 x \<le> of_int N"
proof -
  define e where "e = max (floor_log2 x) (- 1022)"
  have "pow2 (floor_log2 x) \<le> x" by (rule floor_log2_lower) fact
  also have "x \<le> of_int N" by fact
  also have "(of_int N :: rat) < of_int (2 ^ 53)"
    using assms(3) by (simp only: of_int_less_iff)
  also have "(of_int (2 ^ 53) :: rat) = pow2 53"
    by (simp add: pow2_def)
  finally have "floor_log2 x < 53" by (rule pow2_less_imp)
  then have e: "e \<le> 52" by (simp add: e_def)
  define M where "M = (2::int) ^ nat (52 - e)"
  have ulp: "pow2 (e - 52) = 1 / of_int M"
    using e by (simp add: pow2_def M_def)
  have Mpos: "0 < M" by (simp add: M_def)
  have "x * of_int M \<le> of_int N * of_int M"
    using assms(2) Mpos by simp
  then have "x * of_int M \<le> of_int (N * M)"
    by simp
  then have "round_half_even (x * of_int M) \<le> N * M"
    by (rule round_half_even_le)
  then have "(of_int (round_half_even (x * of_int M)) :: rat) \<le> of_int (N * M)"
    by (simp only: of_int_le_iff)
  then have "(of_int (round_half_even (x * of_int M)) :: rat) \<le> of_int N * of_int M"
    by simp
  then have "(of_int (round_half_even (x * of_int M)) :: rat) / of_int M \<le> of_int N"
    using Mpos by (simp add: pos_divide_le_eq)
  moreover have "round_binary64 x = of_int (round_half_even (x * of_int M)) / of_int M"
    using assms(1) by (simp add: round_binary64_def Let_def ulp e_def [symmetric])
  ultimately show ?thesis by simp
qed

lemma round_binary64_minus: "round_binary64 (- x) = - round_binary64 x"
  by (simp add: round_binary64_def Let_def sgn_minus)

lemma round_binary64_le_any:
  assumes "x \<le> of_int N" and "0 \<le> N" and "N < 2 ^ 53"
  shows "round_binary64 x \<le> of_int N"
proof (cases "0 < x")
  case True
  from round_binary64_le_int [OF True assms(1,3)] show ?thesis .
next
  case False
  then have "0 \<le> - x" by simp
  then have "0 \<le> round_binary64 (- x)" by (rule round_binary64_nonneg)
  then have "round_binary64 x \<le> 0" by (simp add: round_binary64_minus)
  also have "(0::rat) \<le> of_int N" using assms(2) by simp
  finally show ?thesis .
qed

lemma round_binary64_abs_le:
  assumes "\<bar>x\<bar> \<le> of_int N" and "0 \<le> N" and "N < 2 ^ 53"
  shows "\<bar>round_binary64 x\<bar> \<le> of_int N"
proof -
  have "x \<le> of_int N" "- x \<le> of_int N" using assms(1) by linarith+
  then have "round_binary64 x \<le> of_int N" "round_binary64 (- x) \<le> of_int N"
    using assms(2,3) by (auto intro: round_binary64_le_any)
  then show ?thesis by (simp add: round_binary64_minus abs_le_iff)
qed

section \<open>Repetition counting: properties\<close>

text \<open>The loop over the key joints applies the state machine to the selected angle, and
  does nothing when no key joint is in the frame.\<close>

lemma map_of_catalog:
  "map_of exercise_patterns e = Some pat \<Longrightarrow>
     e \<in> set catalog_names"
  by (auto simp: catalog_names_def dest: map_of_SomeD intro: rev_image_eqI)

lemma catalog_names_eq:
  "catalog_names = [''pushup'', ''squat'', ''situp'', ''jumping_jack'', ''lunge'', ''plank'']"
  by (simp add: catalog_names_def exercise_patterns_def)

lemma count_loop_selected:
  "count_loop js angles e d u st =
     (case selected_angle js angles of None \<Rightarrow> st | Some a \<Rightarrow> rep_step e a d u st)"
  by (induction js) (auto split: option.splits)

lemma rep_step_count:
  "exercise_count (rep_step e a d u st) =
     exercise_count st + (if stage st = Some ''down'' \<and> stage (rep_step e a d u st) = Some ''up'' then 1 else 0)"
  by (auto simp: rep_step_def)

lemma rep_step_others:
  "current_exercise (rep_step e a d u st) = current_exercise st"
  "angle_history (rep_step e a d u st) = angle_history st"
  "feedback_messages (rep_step e a d u st) = feedback_messages st"
  by (auto simp: rep_step_def)

lemma count_repetitions_total:
  "\<exists>n st'. count_repetitions angles e st = Inr (n, st')"
  by (auto simp: count_repetitions_def exercise_patterns_def get_static_def Let_def split: option.splits)

lemma count_repetitions_result:
  assumes "count_repetitions angles e st = Inr (n, st')"
  shows "n = exercise_count st'"
    and "exercise_count st' = exercise_count st + (if stage st = Some ''down'' \<and> stage st' = Some ''up'' then 1 else 0)"
    and "current_exercise st' = current_exercise st"
    and "angle_history st' = angle_history st"
  using assms
  by (auto simp: count_repetitions_def count_loop_selected rep_step_count rep_step_others Let_def split: option.splits if_splits)


lemma count_repetitions_catalog:
  "count_repetitions angles e st =
    (case map_of exercise_patterns e of
       None \<Rightarrow> Inr (exercise_count st, st)
     | Some pat \<Rightarrow>
         if get_static pat then Inr (exercise_count st, st)
         else (case selected_angle (key_joints pat) angles of
                 None \<Rightarrow> Inr (exercise_count st, st)
               | Some a \<Rightarrow>
                   (let st' = rep_step e a (the (down_threshold pat)) (the (up_threshold pat)) st
                    in Inr (exercise_count st', st'))))"
  by (auto simp: count_repetitions_def count_loop_selected exercise_patterns_def get_static_def Let_def
           split: option.splits)


lemma detect_loop_fields:
  "exercise_count (snd (detect_loop ps st)) = exercise_count st"
  "stage (snd (detect_loop ps st)) = stage st"
  "angle_history (snd (detect_loop ps st)) = angle_history st"
  "feedback_messages (snd (detect_loop ps st)) = feedback_messages st"
  by (induction ps st rule: detect_loop.induct) auto

lemma detect_loop_no_match:
  "\<forall>(e, pat) \<in> set ps. \<not> matches_pattern e pat st \<Longrightarrow>
     detect_loop ps st = (or_unknown (current_exercise st), st)"
  by (induction ps st rule: detect_loop.induct) auto

lemma detect_loop_current:
  "snd (detect_loop ps st) = st \<and> fst (detect_loop ps st) = or_unknown (current_exercise st)
   \<or> (\<exists>(e, pat) \<in> set ps. matches_pattern e pat st
         \<and> detect_loop ps st = (e, st\<lparr>current_exercise := Some e\<rparr>))"
  by (induction ps st rule: detect_loop.induct) auto

lemma detect_exercise_fields:
  "exercise_count (snd (detect_exercise angles st)) = exercise_count st"
  "stage (snd (detect_exercise angles st)) = stage st"
  "feedback_messages (snd (detect_exercise angles st)) = feedback_messages st"
  by (simp_all add: detect_exercise_def Let_def detect_loop_fields)

lemma detect_exercise_current:
  "current_exercise (snd (detect_exercise angles st)) = current_exercise st
   \<or> (\<exists>(e, pat) \<in> set exercise_patterns.
         matches_pattern e pat (st\<lparr>angle_history := deque_append (angle_history st) angles\<rparr>)
         \<and> fst (detect_exercise angles st) = e
         \<and> current_exercise (snd (detect_exercise angles st)) = Some e)"
proof -
  let ?st1 = "st\<lparr>angle_history := deque_append (angle_history st) angles\<rparr>"
  from detect_loop_current [of exercise_patterns ?st1]
  show ?thesis
    by (auto simp: detect_exercise_def Let_def)
qed

lemma step_count:
  "exercise_count (step c st) =
    (case c of
       Reset \<Rightarrow> 0
     | CountRepetitions angles e \<Rightarrow>
         exercise_count st + (if stage st = Some ''down'' \<and> stage (step c st) = Some ''up'' then 1 else 0)
     | _ \<Rightarrow> exercise_count st)"
proof (cases c)
  case (CountRepetitions angles e)
  obtain n st' where r: "count_repetitions angles e st = Inr (n, st')"
    using count_repetitions_total by blast
  from count_repetitions_result(2) [OF r] r CountRepetitions show ?thesis by simp
qed (simp_all add: detect_exercise_fields reset_def)

lemma step_count_mono: "c \<noteq> Reset \<Longrightarrow> exercise_count st \<le> exercise_count (step c st)"
  by (cases c) (simp_all add: step_count del: step.simps)

lemma run_count_mono: "Reset \<notin> set cs \<Longrightarrow> exercise_count st \<le> exercise_count (run cs st)"
proof (induction cs arbitrary: st)
  case Nil
  then show ?case by simp
next
  case (Cons c cs)
  then have "exercise_count st \<le> exercise_count (step c st)"
    using step_count_mono [of c st] by auto
  also have "\<dots> \<le> exercise_count (run cs (step c st))"
    using Cons by simp
  finally show ?case by simp
qed

lemma standard_family_no_rep:
  assumes "e \<in> {''pushup'', ''squat'', ''lunge''}"
    and "map_of exercise_patterns e = Some pat"
    and "selected_angle (key_joints pat) angles = Some a"
    and "a \<le> 160"
  shows "exercise_count (step (CountRepetitions angles e) st) = exercise_count st"
  using assms
  by (auto simp: count_repetitions_catalog exercise_patterns_def get_static_def rep_step_def Let_def)


text \<open>
  C3. For the label \<open>''situp''\<close> the counter applies the inverted state machine to the
  angle of the selected joint (the first of \<open>left_hip\<close>, \<open>right_hip\<close> in the frame):
  an angle strictly above the down threshold 150 with a stage other than \<open>down\<close> sets the
  stage to \<open>down\<close> and leaves the count; an angle strictly below the up threshold 70 while
  the stage is \<open>down\<close> sets the stage to \<open>up\<close> and adds 1 to the count; in every other
  case nothing changes.
\<close>

theorem situp_inverted_machine:
  assumes "selected_angle [''left_hip'', ''right_hip''] angles = Some angle"
  shows "(150 < angle \<and> stage st \<noteq> Some ''down'' \<longrightarrow>
            count_repetitions angles ''situp'' st =
              Inr (exercise_count st, st\<lparr>stage := Some ''down''\<rparr>))
       \<and> (angle < 70 \<and> stage st = Some ''down'' \<longrightarrow>
            count_repetitions angles ''situp'' st =
              Inr (exercise_count st + 1,
                   st\<lparr>stage := Some ''up'', exercise_count := exercise_count st + 1\<rparr>))
       \<and> (\<not> (150 < angle \<and> stage st \<noteq> Some ''down'') \<and> \<not> (angle < 70 \<and> stage st = Some ''down'') \<longrightarrow>
            count_repetitions angles ''situp'' st = Inr (exercise_count st, st))"
  using assms
  by (simp add: count_repetitions_catalog exercise_patterns_def get_static_def rep_step_def Let_def)

theorem situp_inverted_machine_witness:
  "count_repetitions [(''left_hip'', 160)] ''situp'' new_analyzer =
     Inr (0, new_analyzer\<lparr>stage := Some ''down''\<rparr>)
   \<and> count_repetitions [(''right_hip'', 60)] ''situp'' (new_analyzer\<lparr>stage := Some ''down''\<rparr>) =
     Inr (1, new_analyzer\<lparr>stage := Some ''up'', exercise_count := 1\<rparr>)"
  using situp_inverted_machine [of "[(''left_hip'', 160)]" 160 new_analyzer]
    situp_inverted_machine [of "[(''right_hip'', 60)]" 60 "new_analyzer\<lparr>stage := Some ''down''\<rparr>"]
  by (simp add: new_analyzer_def)


text \<open>
  C7. \<open>count_repetitions\<close> with a label that is not in the catalog, or with a static
  pattern (\<open>plank\<close>), returns the current count and leaves the analyzer as it was. For
  every other label it returns the count unchanged when the frame holds no key joint of
  the pattern, and its result depends on the frame only through the angle of the first
  key joint, in the listed order, that the frame holds.
\<close>

theorem count_repetitions_reads_first_joint:
  "(map_of exercise_patterns e = None \<longrightarrow>
      count_repetitions angles e st = Inr (exercise_count st, st))
   \<and> (\<forall>pat. map_of exercise_patterns e = Some pat \<and> get_static pat \<longrightarrow>
      count_repetitions angles e st = Inr (exercise_count st, st))
   \<and> count_repetitions angles ''plank'' st = Inr (exercise_count st, st)
   \<and> (\<forall>pat. map_of exercise_patterns e = Some pat \<and> \<not> get_static pat \<longrightarrow>
        (selected_angle (key_joints pat) angles = None \<longrightarrow>
           count_repetitions angles e st = Inr (exercise_count st, st))
      \<and> (\<forall>angles'. selected_angle (key_joints pat) angles' = selected_angle (key_joints pat) angles \<longrightarrow>
           count_repetitions angles' e st = count_repetitions angles e st))"
  by (auto simp: count_repetitions_catalog exercise_patterns_def get_static_def Let_def split: option.splits)

theorem count_repetitions_reads_first_joint_witness:
  "count_repetitions [(''left_knee'', 80)] ''yoga'' new_analyzer = Inr (0, new_analyzer)
   \<and> count_repetitions [(''left_hip'', 175)] ''plank'' new_analyzer = Inr (0, new_analyzer)
   \<and> count_repetitions [(''left_elbow'', 80)] ''squat'' new_analyzer = Inr (0, new_analyzer)
   \<and> count_repetitions [(''right_knee'', 80), (''left_hip'', 10)] ''squat'' new_analyzer
       = count_repetitions [(''right_knee'', 80)] ''squat'' new_analyzer"
proof -
  let ?squat = "\<lparr>key_joints = [''left_knee'', ''right_knee''], static = None,
         down_threshold = Some 90, up_threshold = Some 160,
         ideal_range = (80, 100), form_checks = [''knees_aligned'', ''back_straight'']\<rparr>"
  have sq: "map_of exercise_patterns ''squat'' = Some ?squat \<and> \<not> get_static ?squat"
    by (simp add: exercise_patterns_def get_static_def)
  have yoga: "map_of exercise_patterns ''yoga'' = None"
    by (simp add: exercise_patterns_def)
  have c0: "exercise_count new_analyzer = 0"
    by (simp add: new_analyzer_def)
  have none: "selected_angle (key_joints ?squat) [(''left_elbow'', 80)] = None"
    by simp
  have same: "selected_angle (key_joints ?squat) [(''right_knee'', 80), (''left_hip'', 10)]
      = selected_angle (key_joints ?squat) [(''right_knee'', 80)]"
    by simp
  have "count_repetitions [(''left_knee'', 80)] ''yoga'' new_analyzer
      = Inr (exercise_count new_analyzer, new_analyzer)"
    using count_repetitions_reads_first_joint
      [where e = "''yoga''" and angles = "[(''left_knee'', 80)]" and st = new_analyzer] yoga
    by blast
  then have 1: "count_repetitions [(''left_knee'', 80)] ''yoga'' new_analyzer = Inr (0, new_analyzer)"
    by (simp only: c0)
  have "count_repetitions [(''left_hip'', 175)] ''plank'' new_analyzer
      = Inr (exercise_count new_analyzer, new_analyzer)"
    using count_repetitions_reads_first_joint
      [where e = "''plank''" and angles = "[(''left_hip'', 175)]" and st = new_analyzer]
    by blast
  then have 2: "count_repetitions [(''left_hip'', 175)] ''plank'' new_analyzer = Inr (0, new_analyzer)"
    by (simp only: c0)
  have "count_repetitions [(''left_elbow'', 80)] ''squat'' new_analyzer
      = Inr (exercise_count new_analyzer, new_analyzer)"
    using count_repetitions_reads_first_joint
      [where e = "''squat''" and angles = "[(''left_elbow'', 80)]" and st = new_analyzer] sq none
    by blast
  then have 3: "count_repetitions [(''left_elbow'', 80)] ''squat'' new_analyzer = Inr (0, new_analyzer)"
    by (simp only: c0)
  have 4: "count_repetitions [(''right_knee'', 80), (''left_hip'', 10)] ''squat'' new_analyzer
       = count_repetitions [(''right_knee'', 80)] ''squat'' new_analyzer"
    using count_repetitions_reads_first_joint
      [where e = "''squat''" and angles = "[(''right_knee'', 80)]" and st = new_analyzer] sq same
    by blast
  show ?thesis using 1 2 3 4 by blast
qed


text \<open>
  C2. Over every sequence of calls without a reset the count does not decrease. The calls
  other than \<open>count_repetitions\<close> and \<open>reset\<close> leave the count and the stage as they
  are. A call of \<open>count_repetitions\<close> returns the count of the analyzer after the call,
  which is the count before plus 1 when the call moves the stage from \<open>down\<close> to
  \<open>up\<close> and the count before otherwise. For each of \<open>pushup\<close>, \<open>squat\<close> and
  \<open>lunge\<close> (down threshold 90, up threshold 160), four calls on a new analyzer with the
  selected angles 95, 85, 95, 85 leave the count at 0.
\<close>

theorem exercise_count_monotone:
  "(Reset \<notin> set cs \<longrightarrow> exercise_count st \<le> exercise_count (run cs st))
   \<and> exercise_count (step (DetectExercise angles) st) = exercise_count st
   \<and> exercise_count (step (EvaluateForm angles e) st) = exercise_count st
   \<and> exercise_count (step GetPerformanceSummary st) = exercise_count st
   \<and> stage (step (DetectExercise angles) st) = stage st
   \<and> stage (step (EvaluateForm angles e) st) = stage st
   \<and> stage (step GetPerformanceSummary st) = stage st
   \<and> (\<exists>n st'. count_repetitions angles e st = Inr (n, st')
         \<and> step (CountRepetitions angles e) st = st'
         \<and> n = exercise_count st'
         \<and> exercise_count st' =
             exercise_count st + (if stage st = Some ''down'' \<and> stage st' = Some ''up'' then 1 else 0))
   \<and> (e \<in> {''pushup'', ''squat'', ''lunge''}
        \<and> map_of exercise_patterns e = Some pat
        \<and> selected_angle (key_joints pat) f1 = Some 95
        \<and> selected_angle (key_joints pat) f2 = Some 85
        \<and> selected_angle (key_joints pat) f3 = Some 95
        \<and> selected_angle (key_joints pat) f4 = Some 85
      \<longrightarrow> exercise_count
            (run [CountRepetitions f1 e, CountRepetitions f2 e,
                  CountRepetitions f3 e, CountRepetitions f4 e] new_analyzer) = 0)"
proof -
  have a: "Reset \<notin> set cs \<longrightarrow> exercise_count st \<le> exercise_count (run cs st)"
    by (simp add: run_count_mono)
  have b1: "exercise_count (step (DetectExercise angles) st) = exercise_count st"
    and b2: "stage (step (DetectExercise angles) st) = stage st"
    by (simp_all add: detect_exercise_fields)
  have b3: "exercise_count (step (EvaluateForm angles e) st) = exercise_count st"
    and b4: "exercise_count (step GetPerformanceSummary st) = exercise_count st"
    and b5: "stage (step (EvaluateForm angles e) st) = stage st"
    and b6: "stage (step GetPerformanceSummary st) = stage st"
    by simp_all
  obtain n st' where r: "count_repetitions angles e st = Inr (n, st')"
    using count_repetitions_total by blast
  have c: "\<exists>n st'. count_repetitions angles e st = Inr (n, st')
         \<and> step (CountRepetitions angles e) st = st'
         \<and> n = exercise_count st'
         \<and> exercise_count st' =
             exercise_count st + (if stage st = Some ''down'' \<and> stage st' = Some ''up'' then 1 else 0)"
    using r count_repetitions_result(1,2) [OF r] by simp
  have d: "e \<in> {''pushup'', ''squat'', ''lunge''}
        \<and> map_of exercise_patterns e = Some pat
        \<and> selected_angle (key_joints pat) f1 = Some 95
        \<and> selected_angle (key_joints pat) f2 = Some 85
        \<and> selected_angle (key_joints pat) f3 = Some 95
        \<and> selected_angle (key_joints pat) f4 = Some 85
      \<longrightarrow> exercise_count
            (run [CountRepetitions f1 e, CountRepetitions f2 e,
                  CountRepetitions f3 e, CountRepetitions f4 e] new_analyzer) = 0"
  proof (intro impI, elim conjE)
    assume h: "e \<in> {''pushup'', ''squat'', ''lunge''}" "map_of exercise_patterns e = Some pat"
       "selected_angle (key_joints pat) f1 = Some 95"
       "selected_angle (key_joints pat) f2 = Some 85"
       "selected_angle (key_joints pat) f3 = Some 95"
       "selected_angle (key_joints pat) f4 = Some 85"
    have "exercise_count new_analyzer = 0" by (simp add: new_analyzer_def)
    then show "exercise_count
            (run [CountRepetitions f1 e, CountRepetitions f2 e,
                  CountRepetitions f3 e, CountRepetitions f4 e] new_analyzer) = 0"
      using h by (simp add: standard_family_no_rep [where pat = pat] del: step.simps)
  qed
  show ?thesis
    by (intro conjI) (fact a b1 b2 b3 b4 b5 b6 c d)+
qed

theorem exercise_count_monotone_witness:
  "exercise_count
     (run [CountRepetitions [(''left_elbow'', 95)] ''pushup'',
           CountRepetitions [(''left_elbow'', 85)] ''pushup'',
           CountRepetitions [(''left_elbow'', 95)] ''pushup'',
           CountRepetitions [(''left_elbow'', 85)] ''pushup''] new_analyzer) = 0
   \<and> exercise_count new_analyzer
       \<le> exercise_count (run [CountRepetitions [(''left_elbow'', 80)] ''pushup'',
              CountRepetitions [(''left_elbow'', 170)] ''pushup''] new_analyzer)"
  using exercise_count_monotone
    [of "[CountRepetitions [(''left_elbow'', 80)] ''pushup'',
          CountRepetitions [(''left_elbow'', 170)] ''pushup'']" new_analyzer
        "[]" "''pushup''"
        "\<lparr>key_joints = [''left_elbow'', ''right_elbow''], static = None,
         down_threshold = Some 90, up_threshold = Some 160,
         ideal_range = (70, 90), form_checks = [''back_straight'', ''full_range'']\<rparr>"
        "[(''left_elbow'', 95)]" "[(''left_elbow'', 85)]" "[(''left_elbow'', 95)]" "[(''left_elbow'', 85)]"]
  by (simp add: exercise_patterns_def del: run.simps step.simps)


section \<open>Detection: properties\<close>

lemma or_unknown_cases:
  "or_unknown None = ''unknown''"
  "e \<noteq> [] \<Longrightarrow> or_unknown (Some e) = e"
  by (simp_all add: or_unknown_def)


text \<open>
  C5. For every non-empty frame, when the history holds fewer than 10 frames after the
  frame is appended, \<open>detect_exercise\<close> returns \<^verbatim>\<open>current_exercise or 'unknown'\<close>:
  \<open>''unknown''\<close> when \<open>current_exercise\<close> is \<open>None\<close>, and the label that
  \<open>current_exercise\<close> holds otherwise. The call appends the frame and leaves
  \<open>current_exercise\<close> as it was, so no freshly matched label is returned.
\<close>

theorem detect_exercise_short_history:
  assumes "angles \<noteq> []"
    and "length (deque_append (angle_history st) angles) < 10"
  shows "detect_exercise angles st =
           (or_unknown (current_exercise st),
            st\<lparr>angle_history := deque_append (angle_history st) angles\<rparr>)
       \<and> (current_exercise st = None \<longrightarrow> fst (detect_exercise angles st) = ''unknown'')
       \<and> (\<forall>e. current_exercise st = Some e \<and> e \<noteq> [] \<longrightarrow> fst (detect_exercise angles st) = e)
       \<and> current_exercise (snd (detect_exercise angles st)) = current_exercise st"
  using assms by (auto simp: detect_exercise_def Let_def or_unknown_def)

theorem detect_exercise_short_history_witness:
  "detect_exercise [(''left_elbow'', 170)] (new_analyzer\<lparr>current_exercise := Some ''squat''\<rparr>) =
     (''squat'', new_analyzer\<lparr>current_exercise := Some ''squat'',
                              angle_history := [[(''left_elbow'', 170)]]\<rparr>)
   \<and> fst (detect_exercise [(''left_elbow'', 170)] new_analyzer) = ''unknown''"
  using detect_exercise_short_history
      [of "[(''left_elbow'', 170)]" "new_analyzer\<lparr>current_exercise := Some ''squat''\<rparr>"]
    detect_exercise_short_history [of "[(''left_elbow'', 170)]" new_analyzer]
  by (simp add: new_analyzer_def deque_append_def or_unknown_def)


text \<open>The range test of the dynamic match fails when no two readings of the joint differ
  by more than the bound, and the static match holds when no examined frame has a key
  joint.\<close>

lemma fold_max_in: "fold max xs (x::rat) \<in> set (x # xs)"
  by (induction xs arbitrary: x) (auto simp: max_def)

lemma fold_min_in: "fold min xs (x::rat) \<in> set (x # xs)"
  by (induction xs arbitrary: x) (auto simp: min_def)

lemma range_within_bound:
  assumes "\<forall>a \<in> set ys. \<forall>b \<in> set ys. a - b \<le> of_int N"
    and "0 \<le> N" and "N < 2 ^ 53"
  shows "\<not> angle_range_exceeds ys (of_int N)"
proof (cases ys)
  case Nil
  then show ?thesis by (simp add: angle_range_exceeds_def)
next
  case (Cons x xs)
  have "fold max xs x \<in> set ys" "fold min xs x \<in> set ys"
    using fold_max_in [of xs x] fold_min_in [of xs x] Cons by simp_all
  with assms(1) have "fold max xs x - fold min xs x \<le> of_int N" by blast
  then have "float_sub (fold max xs x) (fold min xs x) \<le> of_int N"
    unfolding float_sub_def using assms(2,3) by (rule round_binary64_le_any)
  with Cons show ?thesis by (simp add: angle_range_exceeds_def)
qed

lemma set_joint_readings:
  "set (joint_readings joint fs) = {a. \<exists>f \<in> set fs. map_of f joint = Some a}"
  by (induction fs) (auto simp: joint_readings_def)

lemma static_vacuous:
  assumes "\<forall>f \<in> set (last_n 10 (angle_history st)). \<forall>j \<in> set (key_joints pat). map_of f j = None"
  shows "check_static_position pat st"
  using assms
  by (auto simp: check_static_position_def Let_def list_all_iff split: prod.splits option.splits)

lemma dynamic_still:
  assumes "\<forall>joint \<in> set (key_joints pat).
             \<forall>f \<in> set (last_n 15 (angle_history st)). \<forall>g \<in> set (last_n 15 (angle_history st)).
               \<forall>a b. map_of f joint = Some a \<and> map_of g joint = Some b \<longrightarrow> a - b \<le> 40"
  shows "\<not> check_dynamic_movement pat st"
proof -
  have "\<not> angle_range_exceeds (joint_readings joint (last_n 15 (angle_history st))) 40"
    if "joint \<in> set (key_joints pat)" for joint
  proof -
    have "\<forall>a \<in> set (joint_readings joint (last_n 15 (angle_history st))).
          \<forall>b \<in> set (joint_readings joint (last_n 15 (angle_history st))). a - b \<le> of_int 40"
      using assms that by (auto simp: set_joint_readings)
    from range_within_bound [OF this] show ?thesis by simp
  qed
  then show ?thesis
    by (simp add: check_dynamic_movement_def Let_def list_ex_iff)
qed


lemma length_deque_append: "n \<le> length d \<Longrightarrow> n \<le> length (deque_append d x)"
  by (cases d) (simp_all add: deque_append_def)

text \<open>
  C9, as stated, fails: the conditions on the analyzer state do not decide the result,
  since the incoming frame is examined too. After ten frames with \<open>left_elbow\<close> at 90
  the history holds 10 frames, none has a hip joint and no key joint has moved; the frame
  with \<open>left_elbow\<close> at 180 is then classified as \<open>''pushup''\<close>, and in the analyzer
  with that history and no current exercise the frame with \<open>left_hip\<close> at 0 returns
  \<open>''unknown''\<close>.
\<close>

theorem plank_without_hip_data_counterexample:
  "angle_history (run (map DetectExercise static_hold) new_analyzer) = static_hold
   \<and> length static_hold = 10
   \<and> joint_readings ''left_hip'' static_hold = []
   \<and> joint_readings ''right_hip'' static_hold = []
   \<and> \<not> check_dynamic_movement (the (map_of exercise_patterns ''pushup''))
         (run (map DetectExercise static_hold) new_analyzer)
   \<and> \<not> check_dynamic_movement (the (map_of exercise_patterns ''squat''))
         (run (map DetectExercise static_hold) new_analyzer)
   \<and> \<not> check_dynamic_movement (the (map_of exercise_patterns ''situp''))
         (run (map DetectExercise static_hold) new_analyzer)
   \<and> \<not> check_dynamic_movement (the (map_of exercise_patterns ''jumping_jack''))
         (run (map DetectExercise static_hold) new_analyzer)
   \<and> \<not> check_dynamic_movement (the (map_of exercise_patterns ''lunge''))
         (run (map DetectExercise static_hold) new_analyzer)
   \<and> fst (detect_exercise [(''left_elbow'', 180)]
         (run (map DetectExercise static_hold) new_analyzer)) = ''pushup''
   \<and> fst (detect_exercise [(''left_hip'', 0)]
         (new_analyzer\<lparr>angle_history := static_hold\<rparr>)) = ''unknown''"
  by code_simp

text \<open>
  C9, amended. The static match succeeds vacuously when no examined frame contains a key
  joint. For every analyzer state with at least 10 history frames and every non-empty
  frame such that, once the frame is appended, none of the last 10 frames has
  \<open>left_hip\<close> or \<open>right_hip\<close> and over the last 15 frames no two readings of a key
  joint of a dynamic pattern differ by more than 40 degrees, \<open>detect_exercise\<close>
  classifies the movement as \<open>''plank''\<close>: it returns \<open>''plank''\<close> and stores it in
  \<open>current_exercise\<close>, with no hip reading examined.
\<close>

theorem plank_without_hip_data:
  assumes "angles \<noteq> []"
    and "10 \<le> length (angle_history st)"
    and "\<forall>f \<in> set (last_n 10 (deque_append (angle_history st) angles)).
           map_of f ''left_hip'' = None \<and> map_of f ''right_hip'' = None"
    and "\<forall>(e, pat) \<in> set exercise_patterns. \<not> get_static pat \<longrightarrow>
           (\<forall>joint \<in> set (key_joints pat).
              \<forall>f \<in> set (last_n 15 (deque_append (angle_history st) angles)).
              \<forall>g \<in> set (last_n 15 (deque_append (angle_history st) angles)).
                \<forall>a b. map_of f joint = Some a \<and> map_of g joint = Some b \<longrightarrow> a - b \<le> 40)"
  shows "detect_exercise angles st =
           (''plank'', st\<lparr>angle_history := deque_append (angle_history st) angles,
                          current_exercise := Some ''plank''\<rparr>)"
proof -
  let ?st1 = "st\<lparr>angle_history := deque_append (angle_history st) angles\<rparr>"
  have h: "angle_history ?st1 = deque_append (angle_history st) angles" by simp
  have len: "10 \<le> length (deque_append (angle_history st) angles)"
    using assms(2) by (rule length_deque_append)
  have dyn: "\<not> check_dynamic_movement pat ?st1"
    if "(e, pat) \<in> set exercise_patterns" "\<not> get_static pat" for e pat
    using assms(4) that by (intro dynamic_still) (simp only: h, blast)
  have stat: "check_static_position pat ?st1"
    if "key_joints pat = [''left_hip'', ''right_hip'']" for pat
    using assms(3) that by (intro static_vacuous) (simp only: h, simp)
  have "detect_loop exercise_patterns ?st1 = (''plank'', ?st1\<lparr>current_exercise := Some ''plank''\<rparr>)"
    using dyn stat
    by (simp add: exercise_patterns_def matches_pattern_def get_static_def)
  with assms(1) len show ?thesis
    by (simp add: detect_exercise_def Let_def)
qed

theorem plank_without_hip_data_witness:
  "detect_exercise [(''left_elbow'', 90)] (new_analyzer\<lparr>angle_history := static_hold\<rparr>) =
     (''plank'', new_analyzer\<lparr>angle_history := static_hold @ [[(''left_elbow'', 90)]],
                          current_exercise := Some ''plank''\<rparr>)"
proof -
  let ?f = "[(''left_elbow'', 90 :: rat)]"
  let ?st = "new_analyzer\<lparr>angle_history := static_hold\<rparr>"
  have 1: "?f \<noteq> []" by simp
  have 2: "10 \<le> length (angle_history ?st)" by code_simp
  have 3: "\<forall>f \<in> set (last_n 10 (deque_append (angle_history ?st) ?f)).
           map_of f ''left_hip'' = None \<and> map_of f ''right_hip'' = None"
    by code_simp
  have s: "set (last_n 15 (deque_append (angle_history ?st) ?f)) = {?f}"
    by code_simp
  have 4: "\<forall>(e, pat) \<in> set exercise_patterns. \<not> get_static pat \<longrightarrow>
           (\<forall>joint \<in> set (key_joints pat).
              \<forall>f \<in> set (last_n 15 (deque_append (angle_history ?st) ?f)).
              \<forall>g \<in> set (last_n 15 (deque_append (angle_history ?st) ?f)).
                \<forall>a b. map_of f joint = Some a \<and> map_of g joint = Some b \<longrightarrow> a - b \<le> 40)"
    unfolding s by (auto split: if_splits)
  have d: "deque_append static_hold ?f = static_hold @ [?f]"
    by code_simp
  show ?thesis
    using plank_without_hip_data [OF 1 2 3 4] by (simp add: d)
qed

text \<open>How one call changes \<open>current_exercise\<close>.\<close>

lemma step_current:
  "current_exercise (step c st) = current_exercise st
   \<or> (c = Reset \<and> current_exercise (step c st) = None)
   \<or> (\<exists>angles e pat. c = DetectExercise angles
         \<and> (e, pat) \<in> set exercise_patterns
         \<and> matches_pattern e pat (st\<lparr>angle_history := deque_append (angle_history st) angles\<rparr>)
         \<and> current_exercise (step c st) = Some e)"
proof (cases c)
  case (DetectExercise angles)
  from detect_exercise_current [of angles st] DetectExercise show ?thesis
    by auto
next
  case (CountRepetitions angles e)
  obtain n st' where r: "count_repetitions angles e st = Inr (n, st')"
    using count_repetitions_total by blast
  from count_repetitions_result(3) [OF r] r CountRepetitions show ?thesis by simp
qed (simp_all add: reset_def)

lemma step_current_valid:
  assumes "current_exercise st \<in> set (None # map Some catalog_names)"
  shows "current_exercise (step c st) \<in> set (None # map Some catalog_names)"
proof -
  have "Some e \<in> set (None # map Some catalog_names)" if "(e, pat) \<in> set exercise_patterns" for e pat
    using that by (force simp: catalog_names_def)
  with step_current [of c st] assms show ?thesis
    by (elim disjE exE conjE) simp_all
qed

lemma run_current_valid:
  "current_exercise st \<in> set (None # map Some catalog_names) \<Longrightarrow>
   current_exercise (run cs st) \<in> set (None # map Some catalog_names)"
proof (induction cs arbitrary: st)
  case Nil
  then show ?case by simp
next
  case (Cons c cs)
  from Cons.prems have "current_exercise (step c st) \<in> set (None # map Some catalog_names)"
    by (rule step_current_valid)
  then have "current_exercise (run cs (step c st)) \<in> set (None # map Some catalog_names)"
    by (rule Cons.IH)
  then show ?case by (simp only: run.simps)
qed


text \<open>
  C6. After every sequence of calls on a new analyzer, \<open>current_exercise\<close> is \<open>None\<close>
  or one of the six catalog names, and never \<open>''unknown''\<close>. A call leaves
  \<open>current_exercise\<close> as it was, or is \<open>reset\<close> and sets it to \<open>None\<close>, or is
  \<open>detect_exercise\<close> and sets it to a catalog name whose pattern matches. When the
  history holds at least 10 frames and no pattern matches, \<open>detect_exercise\<close> changes
  only the history and returns \<^verbatim>\<open>current_exercise or 'unknown'\<close>.
\<close>

theorem current_exercise_never_unknown:
  "current_exercise (run cs new_analyzer) \<in> set (None # map Some catalog_names)
   \<and> current_exercise (run cs new_analyzer) \<noteq> Some ''unknown''
   \<and> (current_exercise (step c st) = current_exercise st
        \<or> (c = Reset \<and> current_exercise (step c st) = None)
        \<or> (\<exists>angles e pat. c = DetectExercise angles
              \<and> (e, pat) \<in> set exercise_patterns
              \<and> matches_pattern e pat (st\<lparr>angle_history := deque_append (angle_history st) angles\<rparr>)
              \<and> current_exercise (step c st) = Some e))
   \<and> (angles \<noteq> [] \<and> 10 \<le> length (deque_append (angle_history st) angles)
        \<and> (\<forall>(e, pat) \<in> set exercise_patterns.
              \<not> matches_pattern e pat (st\<lparr>angle_history := deque_append (angle_history st) angles\<rparr>))
      \<longrightarrow> detect_exercise angles st =
            (or_unknown (current_exercise st),
             st\<lparr>angle_history := deque_append (angle_history st) angles\<rparr>))"
proof -
  have a: "current_exercise (run cs new_analyzer) \<in> set (None # map Some catalog_names)"
    by (rule run_current_valid) (simp add: new_analyzer_def)
  have "Some ''unknown'' \<notin> set (None # map Some catalog_names)"
    by (simp add: catalog_names_eq)
  with a have b: "current_exercise (run cs new_analyzer) \<noteq> Some ''unknown''"
    by metis
  have d: "angles \<noteq> [] \<and> 10 \<le> length (deque_append (angle_history st) angles)
        \<and> (\<forall>(e, pat) \<in> set exercise_patterns.
              \<not> matches_pattern e pat (st\<lparr>angle_history := deque_append (angle_history st) angles\<rparr>))
      \<longrightarrow> detect_exercise angles st =
            (or_unknown (current_exercise st),
             st\<lparr>angle_history := deque_append (angle_history st) angles\<rparr>)"
    using detect_loop_no_match
      [of exercise_patterns "st\<lparr>angle_history := deque_append (angle_history st) angles\<rparr>"]
    by (auto simp: detect_exercise_def Let_def)
  show ?thesis
    by (intro conjI) (fact a b step_current d)+
qed


theorem current_exercise_never_unknown_witness:
  "current_exercise (run [DetectExercise [(''left_elbow'', 90)], Reset] new_analyzer) \<noteq> Some ''unknown''
   \<and> detect_exercise [(''left_hip'', 0)]
        (new_analyzer\<lparr>current_exercise := Some ''squat'',
                       angle_history := replicate 9 [(''left_hip'', 0)]\<rparr>) =
       (''squat'', new_analyzer\<lparr>current_exercise := Some ''squat'',
                       angle_history := replicate 9 [(''left_hip'', 0)] @ [[(''left_hip'', 0)]]\<rparr>)"
proof -
  let ?f = "[(''left_hip'', 0 :: rat)]"
  let ?st = "new_analyzer\<lparr>current_exercise := Some ''squat'', angle_history := replicate 9 ?f\<rparr>"
  let ?st1 = "?st\<lparr>angle_history := deque_append (angle_history ?st) ?f\<rparr>"
  note t = current_exercise_never_unknown
    [where cs = "[DetectExercise [(''left_elbow'', 90)], Reset]" and angles = ?f and st = ?st]
  have d: "deque_append (replicate 9 ?f) ?f = replicate 9 ?f @ [?f]"
    by (simp add: deque_append_def)
  have nm: "\<forall>(e, pat) \<in> set exercise_patterns. \<not> matches_pattern e pat ?st1"
    by code_simp
  have pre: "?f \<noteq> [] \<and> 10 \<le> length (deque_append (angle_history ?st) ?f)"
    by (simp add: d)
  from t have 1: "current_exercise (run [DetectExercise [(''left_elbow'', 90)], Reset] new_analyzer)
      \<noteq> Some ''unknown''"
    by (rule conjunct2 [THEN conjunct1])
  from t pre nm have "detect_exercise ?f ?st = (or_unknown (current_exercise ?st), ?st1)"
    by blast
  then have 2: "detect_exercise ?f ?st =
       (''squat'', new_analyzer\<lparr>current_exercise := Some ''squat'',
                       angle_history := replicate 9 ?f @ [?f]\<rparr>)"
    by (simp add: or_unknown_def d)
  from 1 2 show ?thesis by (rule conjI)
qed


section \<open>Form evaluation: properties\<close>

text \<open>No message other than that of the \<open>knees_aligned\<close> check is the text
  \<open>''Keep knees aligned!''\<close>.\<close>

lemma knees_message_distinct:
  "''Keep knees aligned!'' \<noteq> go_deeper_message joint angle"
  "''Keep knees aligned!'' \<noteq> too_low_message"
  "''Keep knees aligned!'' \<noteq> come_up_message m"
  "''Keep knees aligned!'' \<noteq> hips_sag_message"
  by (simp_all add: go_deeper_message_def too_low_message_def come_up_message_def
        hips_sag_message_def)

lemma joint_feedback_no_knees:
  "''Keep knees aligned!'' \<notin> set (joint_feedback e joint angle mn mx st)"
  by (simp add: joint_feedback_def knees_message_distinct)

lemma form_loop_no_knees:
  "''Keep knees aligned!'' \<notin> set feedback \<Longrightarrow>
   ''Keep knees aligned!'' \<notin> set (form_loop js angles e mn mx st feedback)"
proof (induction js arbitrary: feedback)
  case Nil
  then show ?case by simp
next
  case (Cons joint rest)
  show ?case
  proof (cases "map_of angles joint")
    case None
    with Cons show ?thesis by simp
  next
    case (Some angle)
    have "''Keep knees aligned!'' \<notin> set (feedback @ joint_feedback e joint angle mn mx st)"
      using Cons.prems joint_feedback_no_knees [of e joint angle mn mx st] by simp
    then have "''Keep knees aligned!'' \<notin>
        set (form_loop rest angles e mn mx st (feedback @ joint_feedback e joint angle mn mx st))"
      by (rule Cons.IH)
    with Some show ?thesis by simp
  qed
qed

lemma not_in_guarded: "x \<notin> set xs \<Longrightarrow> x \<notin> set (if c then xs else [])"
  by simp

lemma back_straight_no_knees:
  "''Keep knees aligned!'' \<notin> set (back_straight_feedback angles e pat)"
  unfolding back_straight_feedback_def
  by (rule not_in_guarded) (simp add: Let_def knees_message_distinct split: option.splits)


text \<open>
  C8, as stated, fails at the threshold: the code compares the difference as binary64
  computes it. With \<open>left_knee\<close> at 16.0 and \<open>right_knee\<close> at 0.9999999999999999 the
  difference exceeds 15, the subtraction is rounded to 15.0, and no message is emitted.
\<close>

theorem knees_aligned_check_counterexample:
  "''Keep knees aligned!'' \<notin>
     set (evaluate_form [(''left_knee'', 16), (''right_knee'', below_one)] ''squat'' new_analyzer)
   \<and> 15 < \<bar>16 - below_one\<bar>
   \<and> \<bar>float_sub 16 below_one\<bar> = 15"
  by code_simp

text \<open>
  C8, amended. For every catalog exercise whose pattern declares the \<open>knees_aligned\<close>
  form check, and every frame that holds both \<open>left_knee\<close> and \<open>right_knee\<close>, the
  feedback of \<open>evaluate_form\<close> contains \<open>''Keep knees aligned!''\<close> exactly when the
  absolute difference of the two knee angles, with the subtraction rounded to binary64
  as Python computes it, is greater than 15 (100 and 120 are flagged, 100 and 105 are
  not); whenever the message is emitted, the exact difference is greater than 15 too.
\<close>

theorem knees_aligned_check:
  assumes "map_of exercise_patterns e = Some pat"
    and "''knees_aligned'' \<in> set (form_checks pat)"
    and "map_of angles ''left_knee'' = Some left_knee"
    and "map_of angles ''right_knee'' = Some right_knee"
  shows "(''Keep knees aligned!'' \<in> set (evaluate_form angles e st))
           = (15 < \<bar>float_sub left_knee right_knee\<bar>)
       \<and> (''Keep knees aligned!'' \<in> set (evaluate_form angles e st)
            \<longrightarrow> 15 < \<bar>left_knee - right_knee\<bar>)"
proof -
  obtain mn mx where ir: "ideal_range pat = (mn, mx)" by (cases "ideal_range pat")
  have "(''Keep knees aligned!'' \<in> set (knees_aligned_feedback angles pat))
           = (15 < \<bar>float_sub left_knee right_knee\<bar>)"
    using assms(2-4) by (simp add: knees_aligned_feedback_def Let_def)
  moreover have "''Keep knees aligned!'' \<notin> set (form_loop (key_joints pat) angles e mn mx st [])"
    by (rule form_loop_no_knees) simp
  ultimately have a: "(''Keep knees aligned!'' \<in> set (evaluate_form angles e st))
           = (15 < \<bar>float_sub left_knee right_knee\<bar>)"
    using assms(1) ir by (simp add: evaluate_form_def back_straight_no_knees)
  have "\<bar>float_sub left_knee right_knee\<bar> \<le> of_int 15" if "\<bar>left_knee - right_knee\<bar> \<le> of_int 15"
    unfolding float_sub_def using that by (rule round_binary64_abs_le) simp_all
  then have b: "15 < \<bar>float_sub left_knee right_knee\<bar> \<longrightarrow> 15 < \<bar>left_knee - right_knee\<bar>"
    by (auto simp: not_le [symmetric])
  from a b show ?thesis by simp
qed

theorem knees_aligned_check_witness:
  "''Keep knees aligned!'' \<in> set (evaluate_form [(''left_knee'', 100), (''right_knee'', 120)] ''squat'' new_analyzer)
   \<and> ''Keep knees aligned!'' \<notin> set (evaluate_form [(''left_knee'', 100), (''right_knee'', 105)] ''squat'' new_analyzer)"
proof -
  let ?squat = "\<lparr>key_joints = [''left_knee'', ''right_knee''], static = None,
         down_threshold = Some 90, up_threshold = Some 160,
         ideal_range = (80, 100), form_checks = [''knees_aligned'', ''back_straight'']\<rparr>"
  have sq: "map_of exercise_patterns ''squat'' = Some ?squat"
    by (simp add: exercise_patterns_def)
  have fc: "''knees_aligned'' \<in> set (form_checks ?squat)" by simp
  have v1: "(15 < \<bar>float_sub 100 120\<bar>) = True" by code_simp
  have v2: "(15 < \<bar>float_sub 100 105\<bar>) = False" by code_simp
  show ?thesis
    using knees_aligned_check [OF sq fc, of "[(''left_knee'', 100), (''right_knee'', 120)]" 100 120 new_analyzer]
      knees_aligned_check [OF sq fc, of "[(''left_knee'', 100), (''right_knee'', 105)]" 100 105 new_analyzer]
    by (simp add: v1 v2)
qed

section \<open>Quality score: properties\<close>

text \<open>The two loops never raise and build the list of the scores of all consecutive
  pairs; for dictionaries its length and its sum are the two counts.\<close>

lemma list_get_in_range:
  "0 \<le> i \<Longrightarrow> i < int (length xs) \<Longrightarrow> list_get xs i = Inr (xs ! nat i)"
  by (simp add: list_get_def Let_def)

lemma joint_scores_eq:
  "set js \<subseteq> fst ` set cur \<Longrightarrow>
   joint_scores js cur prev scores = Inr (scores @ pair_scores js cur prev)"
proof (induction js arbitrary: scores)
  case Nil
  then show ?case by (simp add: pair_scores_def)
next
  case (Cons joint rest)
  then have "joint \<in> fst ` set cur" by simp
  then obtain c where c: "map_of cur joint = Some c"
    by (metis domD dom_map_of_conv_image_fst)
  have rest: "set rest \<subseteq> fst ` set cur" using Cons.prems by simp
  show ?case
  proof (cases "map_of prev joint")
    case None
    then show ?thesis using Cons.IH [OF rest] by (simp add: pair_scores_def)
  next
    case (Some p)
    then show ?thesis
      using Cons.IH [OF rest] c
      by (simp add: pair_scores_def dict_get_def angle_delta_def Let_def)
  qed
qed

lemma pair_scores_empty_prev: "pair_scores js cur [] = []"
  by (simp add: pair_scores_def)

lemma score_loop_eq:
  "\<forall>i \<in> set is. 1 \<le> i \<and> i < int (length recent) \<Longrightarrow>
   score_loop is recent scores =
     Inr (scores @ concat (map (\<lambda>i. pair_scores (map fst (recent ! nat i)) (recent ! nat i)
                                        (recent ! nat (i - 1))) is))"
proof (induction "is" arbitrary: scores)
  case Nil
  then show ?case by simp
next
  case (Cons i rest)
  then have i: "1 \<le> i" "i < int (length recent)" by simp_all
  have g1: "list_get recent i = Inr (recent ! nat i)"
    using i by (simp add: list_get_in_range)
  have g2: "list_get recent (i - 1) = Inr (recent ! nat (i - 1))"
    using i by (simp add: list_get_in_range)
  have IH: "score_loop rest recent s =
     Inr (s @ concat (map (\<lambda>i. pair_scores (map fst (recent ! nat i)) (recent ! nat i)
                                        (recent ! nat (i - 1))) rest))" for s
    using Cons by simp
  show ?case
  proof (cases "recent ! nat i = []")
    case True
    then show ?thesis by (simp add: g1 IH pair_scores_def)
  next
    case cur: False
    show ?thesis
    proof (cases "recent ! nat (i - 1) = []")
      case True
      then show ?thesis using cur by (simp add: g1 g2 IH pair_scores_empty_prev)
    next
      case False
      then show ?thesis using cur
        by (simp add: g1 g2 IH joint_scores_eq)
    qed
  qed
qed

lemma upto_as_upt: "[1..int n - 1] = map int [1..<n]"
proof (induction n)
  case 0
  then show ?case by simp
next
  case (Suc n)
  show ?case
  proof (cases "n = 0")
    case True
    then show ?thesis by simp
  next
    case False
    then have "[1..int (Suc n) - 1] = [1..int n - 1] @ [int n]"
      using upto_rec2 [of 1 "int n"] by simp
    with Suc False show ?thesis by simp
  qed
qed

lemma score_loop_range:
  "score_loop [1..int (length recent) - 1] recent [] = Inr (all_scores recent)"
proof -
  have "\<forall>i \<in> set [1..int (length recent) - 1]. 1 \<le> i \<and> i < int (length recent)"
    by auto
  from score_loop_eq [OF this, of "[]"] show ?thesis
    by (simp add: all_scores_def upto_as_upt comp_def nat_diff_distrib')
qed

lemma sum_list_indicator:
  "sum_list (map (\<lambda>x. if P x then 1 else (0::int)) xs) = int (length (filter P xs))"
  by (induction xs) simp_all

lemma map_of_present: "(map_of fr joint \<noteq> None) = (joint \<in> fst ` set fr)"
  by (simp add: map_of_eq_None_iff)

lemma pair_scores_alt:
  "pair_scores js cur prev =
    map (\<lambda>joint. if 1 < angle_delta cur prev joint \<and> angle_delta cur prev joint < 20 then 1 else 0)
      (filter (\<lambda>joint. joint \<in> fst ` set prev) js)"
  unfolding pair_scores_def by (simp only: map_of_present)

lemma length_pair_scores:
  assumes "wf_frame cur"
  shows "length (pair_scores (map fst cur) cur prev) = card (shared_joints cur prev)"
proof -
  let ?xs = "filter (\<lambda>joint. joint \<in> fst ` set prev) (map fst cur)"
  have d: "distinct ?xs"
    using assms by (simp add: wf_frame_def)
  have "set ?xs = shared_joints cur prev"
    by (auto simp: shared_joints_def)
  with distinct_card [OF d] show ?thesis
    by (simp add: pair_scores_alt)
qed

lemma sum_pair_scores:
  assumes "wf_frame cur"
  shows "sum_list (pair_scores (map fst cur) cur prev) = int (card (consistent_joints cur prev))"
proof -
  let ?P = "\<lambda>joint. 1 < angle_delta cur prev joint \<and> angle_delta cur prev joint < 20"
  let ?xs = "filter ?P (filter (\<lambda>joint. joint \<in> fst ` set prev) (map fst cur))"
  have d: "distinct ?xs"
    using assms by (simp add: wf_frame_def)
  have "set ?xs = consistent_joints cur prev"
    by (auto simp: consistent_joints_def shared_joints_def)
  with distinct_card [OF d] have "length ?xs = card (consistent_joints cur prev)"
    by simp
  then show ?thesis
    by (simp add: pair_scores_alt sum_list_indicator)
qed

lemma sum_list_concat_int: "sum_list (concat xss) = sum_list (map sum_list (xss :: int list list))"
  by (induction xss) simp_all

lemma length_all_scores:
  assumes "\<forall>fr \<in> set recent. wf_frame fr"
  shows "length (all_scores recent) = total_comparisons recent"
proof -
  let ?p = "\<lambda>i. pair_scores (map fst (recent ! i)) (recent ! i) (recent ! (i - 1))"
  let ?c = "\<lambda>i. card (shared_joints (recent ! i) (recent ! (i - 1)))"
  have "length (?p i) = ?c i" if "i \<in> set [1..<length recent]" for i
    using that assms by (intro length_pair_scores) simp
  then have eq: "map (\<lambda>i. length (?p i)) [1..<length recent] = map ?c [1..<length recent]"
    by (intro map_cong refl)
  have "length (all_scores recent) = sum_list (map length (map ?p [1..<length recent]))"
    unfolding all_scores_def by (rule length_concat)
  also have "\<dots> = sum_list (map (\<lambda>i. length (?p i)) [1..<length recent])"
    by (simp only: map_map comp_def)
  also have "\<dots> = sum_list (map ?c [1..<length recent])"
    by (simp only: eq)
  also have "\<dots> = total_comparisons recent"
    by (simp only: total_comparisons_def)
  finally show ?thesis .
qed

lemma sum_all_scores:
  assumes "\<forall>fr \<in> set recent. wf_frame fr"
  shows "sum_list (all_scores recent) = int (consistent_count recent)"
proof -
  let ?p = "\<lambda>i. pair_scores (map fst (recent ! i)) (recent ! i) (recent ! (i - 1))"
  let ?c = "\<lambda>i. card (consistent_joints (recent ! i) (recent ! (i - 1)))"
  have "sum_list (?p i) = int (?c i)" if "i \<in> set [1..<length recent]" for i
    using that assms by (intro sum_pair_scores) simp
  then have eq: "map (\<lambda>i. sum_list (?p i)) [1..<length recent]
      = map (\<lambda>i. int (?c i)) [1..<length recent]"
    by (intro map_cong refl)
  have "sum_list (all_scores recent) = sum_list (map sum_list (map ?p [1..<length recent]))"
    unfolding all_scores_def by (rule sum_list_concat_int)
  also have "\<dots> = sum_list (map (\<lambda>i. sum_list (?p i)) [1..<length recent])"
    by (simp only: map_map comp_def)
  also have "\<dots> = sum_list (map (\<lambda>i. int (?c i)) [1..<length recent])"
    by (simp only: eq)
  also have "\<dots> = sum_list (map int (map ?c [1..<length recent]))"
    by (simp only: map_map comp_def)
  also have "\<dots> = int (sum_list (map ?c [1..<length recent]))"
    by (rule sum_list_of_nat)
  also have "\<dots> = int (consistent_count recent)"
    by (simp only: consistent_count_def)
  finally show ?thesis .
qed

lemma calculate_quality_score_scores:
  "calculate_quality_score st =
    (if length (angle_history st) < 10 then Inr 0
     else
       let scores = all_scores (last_n 10 (angle_history st))
       in if scores = [] then Inr 0
          else Inr (int_of_float
                 (float_mul (round_binary64 (of_int (sum_list scores) / of_int (int (length scores)))) 100)))"
  by (simp add: calculate_quality_score_def Let_def score_loop_range int_truediv_def)

lemma round_binary64_one: "round_binary64 1 = 1"
  by code_simp

lemma round_binary64_hundred: "round_binary64 100 = 100"
  by code_simp

lemma float_score_bounds:
  assumes "0 \<le> c" and "c \<le> t" and "0 < t"
  shows "0 \<le> int_of_float (float_mul (round_binary64 (of_int c / of_int t)) 100)
       \<and> int_of_float (float_mul (round_binary64 (of_int c / of_int t)) 100) \<le> 100"
proof -
  define y :: rat where "y = of_int c / of_int t"
  define q where "q = round_binary64 y"
  have y0: "0 \<le> y" and y1: "y \<le> of_int 1"
    using assms by (simp_all add: y_def)
  have q0: "0 \<le> q" unfolding q_def using y0 by (rule round_binary64_nonneg)
  have q1: "q \<le> 1"
  proof (cases "y = 0")
    case True
    then show ?thesis by (simp add: q_def round_binary64_def)
  next
    case False
    with y0 have "0 < y" by linarith
    from round_binary64_le_int [OF this y1] show ?thesis by (simp add: q_def)
  qed
  define p where "p = q * 100"
  have p0: "0 \<le> p" using q0 by (simp add: p_def)
  have p1: "p \<le> of_int 100" using q1 by (simp add: p_def)
  have r0: "0 \<le> round_binary64 p"
    using p0 by (rule round_binary64_nonneg)
  have r1: "round_binary64 p \<le> 100"
  proof (cases "p = 0")
    case True
    then show ?thesis by (simp add: round_binary64_def)
  next
    case False
    with p0 have "0 < p" by linarith
    from round_binary64_le_int [OF this p1] show ?thesis by simp
  qed
  have "0 \<le> \<lfloor>round_binary64 p\<rfloor>" using r0 by simp
  moreover have "\<lfloor>round_binary64 p\<rfloor> \<le> 100" using r1 by (simp add: floor_le_iff)
  ultimately show ?thesis
    using r0 by (simp add: int_of_float_def float_mul_def p_def q_def y_def)
qed

lemma float_score_zero:
  "int_of_float (float_mul (round_binary64 (0 / of_int t)) 100) = 0"
  by (simp add: round_binary64_def float_mul_def int_of_float_def)

lemma float_score_full:
  "0 < t \<Longrightarrow> int_of_float (float_mul (round_binary64 (of_int t / of_int t)) 100) = 100"
  by (simp add: round_binary64_one round_binary64_hundred float_mul_def int_of_float_def)

lemma pair_scores_no_shared:
  "shared_joints cur prev = {} \<Longrightarrow> pair_scores (map fst cur) cur prev = []"
  by (auto simp: pair_scores_alt shared_joints_def filter_empty_conv)

lemma all_scores_no_shared:
  assumes "\<forall>i \<in> set [1..<length recent]. shared_joints (recent ! i) (recent ! (i - 1)) = {}"
  shows "all_scores recent = []"
  using assms by (simp add: all_scores_def pair_scores_no_shared)

lemma consistent_le_total:
  "consistent_count recent \<le> total_comparisons recent"
proof -
  have "card (consistent_joints cur prev) \<le> card (shared_joints cur prev)" for cur prev
    by (rule card_mono) (auto simp: consistent_joints_def shared_joints_def)
  then show ?thesis
    unfolding consistent_count_def total_comparisons_def
    by (intro sum_list_mono) simp
qed

lemma exact_delta_zero:
  "exact_delta cur prev joint = 0 \<Longrightarrow> angle_delta cur prev joint = 0"
  by (simp add: exact_delta_def angle_delta_def float_sub_def round_binary64_def)

lemma consistent_count_static:
  assumes "\<forall>i \<in> set [1..<length recent].
             \<forall>joint \<in> shared_joints (recent ! i) (recent ! (i - 1)).
               exact_delta (recent ! i) (recent ! (i - 1)) joint = 0"
  shows "consistent_count recent = 0"
proof -
  have "consistent_joints (recent ! i) (recent ! (i - 1)) = {}" if "i \<in> set [1..<length recent]" for i
    using assms that by (auto simp: consistent_joints_def dest!: bspec dest: exact_delta_zero)
  then show ?thesis
    by (simp add: consistent_count_def)
qed

lemma consistent_count_smooth:
  assumes "\<forall>i \<in> set [1..<length recent].
             \<forall>joint \<in> shared_joints (recent ! i) (recent ! (i - 1)).
               1 < angle_delta (recent ! i) (recent ! (i - 1)) joint
               \<and> angle_delta (recent ! i) (recent ! (i - 1)) joint < 20"
  shows "consistent_count recent = total_comparisons recent"
proof -
  have "consistent_joints (recent ! i) (recent ! (i - 1)) = shared_joints (recent ! i) (recent ! (i - 1))"
    if "i \<in> set [1..<length recent]" for i
    using assms that by (auto simp: consistent_joints_def)
  then have "map (\<lambda>i. card (consistent_joints (recent ! i) (recent ! (i - 1)))) [1..<length recent]
      = map (\<lambda>i. card (shared_joints (recent ! i) (recent ! (i - 1)))) [1..<length recent]"
    by (intro map_cong refl) simp
  then show ?thesis
    by (simp only: consistent_count_def total_comparisons_def)
qed

lemma wf_last_n: "\<forall>fr \<in> set xs. wf_frame fr \<Longrightarrow> \<forall>fr \<in> set (last_n n xs). wf_frame fr"
  by (auto simp: last_n_def dest: in_set_dropD)

lemma calculate_quality_score_counts:
  assumes "\<forall>fr \<in> set (angle_history st). wf_frame fr"
  shows "calculate_quality_score st =
    Inr (if length (angle_history st) < 10 then 0
         else if total_comparisons (last_n 10 (angle_history st)) = 0 then 0
         else int_of_float
                (float_mul
                   (round_binary64
                      (of_int (int (consistent_count (last_n 10 (angle_history st))))
                         / of_int (int (total_comparisons (last_n 10 (angle_history st))))))
                   100))"
proof -
  let ?recent = "last_n 10 (angle_history st)"
  have wf: "\<forall>fr \<in> set ?recent. wf_frame fr"
    using assms by (rule wf_last_n)
  have l: "length (all_scores ?recent) = total_comparisons ?recent"
    using wf by (rule length_all_scores)
  have s: "sum_list (all_scores ?recent) = int (consistent_count ?recent)"
    using wf by (rule sum_all_scores)
  have e: "(all_scores ?recent = []) = (total_comparisons ?recent = 0)"
    using l by (metis length_0_conv)
  show ?thesis
    unfolding calculate_quality_score_scores Let_def e
    by (simp only: l s if_distrib [of Inr] cong: if_cong)
qed

text \<open>
  C10. \<open>calculate_quality_score\<close> is total: for every analyzer it returns an integer
  and raises neither \<open>ZeroDivisionError\<close> nor any other error, and so does
  \<open>get_performance_summary\<close>. When the history holds at least 10 frames and no
  consecutive pair of the last 10 frames shares a joint (empty frames share none), no
  comparison is collected and the result is 0; the division is not evaluated.
\<close>

theorem calculate_quality_score_total:
  "(\<exists>n. calculate_quality_score st = Inr n)
   \<and> (\<exists>s. get_performance_summary st = Inr s)
   \<and> (10 \<le> length (angle_history st)
        \<and> (\<forall>i \<in> set [1..<length (last_n 10 (angle_history st))].
              shared_joints (last_n 10 (angle_history st) ! i)
                (last_n 10 (angle_history st) ! (i - 1)) = {})
      \<longrightarrow> calculate_quality_score st = Inr 0)"
proof -
  have a: "\<exists>n. calculate_quality_score st = Inr n"
    by (simp add: calculate_quality_score_scores Let_def)
  then have b: "\<exists>s. get_performance_summary st = Inr s"
    by (auto simp: get_performance_summary_def)
  have c: "10 \<le> length (angle_history st)
        \<and> (\<forall>i \<in> set [1..<length (last_n 10 (angle_history st))].
              shared_joints (last_n 10 (angle_history st) ! i)
                (last_n 10 (angle_history st) ! (i - 1)) = {})
      \<longrightarrow> calculate_quality_score st = Inr 0"
    using all_scores_no_shared [of "last_n 10 (angle_history st)"]
    by (simp add: calculate_quality_score_scores Let_def)
  show ?thesis
    by (intro conjI) (fact a b c)+
qed

theorem calculate_quality_score_total_witness:
  "calculate_quality_score (run (map DetectExercise alternating_frames) new_analyzer) = Inr 0"
proof -
  let ?st = "run (map DetectExercise alternating_frames) new_analyzer"
  have "10 \<le> length (angle_history ?st)
        \<and> (\<forall>i \<in> set [1..<length (last_n 10 (angle_history ?st))].
              shared_joints (last_n 10 (angle_history ?st) ! i)
                (last_n 10 (angle_history ?st) ! (i - 1)) = {})"
    by code_simp
  with calculate_quality_score_total [of ?st] show ?thesis by blast
qed

text \<open>
  C1, as the description states it, fails in two ways. The score is not the rounded value
  of 100 times the consistent count over the total: ten frames of one joint with the
  angles 0, 5, 10, 15, 20, 25, 30, 30, 30, 30 give 6 consistent comparisons out of 9,
  the summary reports 66, and rounding 66.67 gives 67. And a comparison is classified by
  the delta as binary64 computes it: ten frames alternating between 2.0 and
  0.9999999999999999 have all 9 exact deltas strictly between 1 and 20, each subtraction
  is rounded to 1.0, and the score is 0, not 100.
\<close>

theorem quality_score_rounding_counterexample:
  "get_performance_summary (run (map DetectExercise ramp_then_hold) new_analyzer) =
     Inr \<lparr>exercise = Some ''plank'', repetitions = 0, current_stage = None, quality_score = 66\<rparr>
   \<and> angle_history (run (map DetectExercise ramp_then_hold) new_analyzer) = ramp_then_hold
   \<and> spec_consistent_count (last_n 10 ramp_then_hold) = 6
   \<and> total_comparisons (last_n 10 ramp_then_hold) = 9
   \<and> spec_quality_score (last_n 10 ramp_then_hold) = 67
   \<and> get_performance_summary (run (map DetectExercise near_one_steps) new_analyzer) =
     Inr \<lparr>exercise = Some ''plank'', repetitions = 0, current_stage = None, quality_score = 0\<rparr>
   \<and> angle_history (run (map DetectExercise near_one_steps) new_analyzer) = near_one_steps
   \<and> spec_consistent_count (last_n 10 near_one_steps) = 9
   \<and> total_comparisons (last_n 10 near_one_steps) = 9
   \<and> spec_quality_score (last_n 10 near_one_steps) = 100"
  by code_simp

text \<open>
  C1, amended. For an analyzer whose history frames are dictionaries, the quality score
  of \<open>get_performance_summary\<close> is that of \<open>calculate_quality_score\<close>; it is 0
  when the history holds fewer than 10 frames or the last 10 frames give no comparison,
  and otherwise it is \<^verbatim>\<open>int(consistent_count / total_comparisons * 100)\<close> in binary64
  arithmetic: the quotient is rounded to binary64, multiplied by 100, rounded again, and
  its fraction is dropped (truncation, not rounding to the nearest integer). Each
  consecutive pair of the last 10 frames and each joint present in both contributes one
  comparison, consistent exactly when the absolute angle delta, with the subtraction
  rounded to binary64 as Python computes it, is strictly between 1 and 20. The score
  always lies in [0, 100]; it is 0 when every exact delta is 0, and it is 100 when there
  is at least one comparison and every computed delta lies strictly between 1 and 20.
\<close>

theorem quality_score_truncates:
  assumes "\<forall>fr \<in> set (angle_history st). wf_frame fr"
  shows "(\<exists>s. get_performance_summary st = Inr s \<and> calculate_quality_score st = Inr (quality_score s))
   \<and> calculate_quality_score st =
       Inr (if length (angle_history st) < 10 then 0
            else if total_comparisons (last_n 10 (angle_history st)) = 0 then 0
            else int_of_float
                   (float_mul
                      (round_binary64
                         (of_int (int (consistent_count (last_n 10 (angle_history st))))
                            / of_int (int (total_comparisons (last_n 10 (angle_history st))))))
                      100))
   \<and> (\<exists>n. calculate_quality_score st = Inr n \<and> 0 \<le> n \<and> n \<le> 100)
   \<and> (length (angle_history st) < 10 \<longrightarrow> calculate_quality_score st = Inr 0)
   \<and> ((\<forall>i \<in> set [1..<length (last_n 10 (angle_history st))].
          \<forall>joint \<in> shared_joints (last_n 10 (angle_history st) ! i)
                      (last_n 10 (angle_history st) ! (i - 1)).
            exact_delta (last_n 10 (angle_history st) ! i)
              (last_n 10 (angle_history st) ! (i - 1)) joint = 0)
      \<longrightarrow> calculate_quality_score st = Inr 0)
   \<and> (10 \<le> length (angle_history st)
        \<and> 0 < total_comparisons (last_n 10 (angle_history st))
        \<and> (\<forall>i \<in> set [1..<length (last_n 10 (angle_history st))].
             \<forall>joint \<in> shared_joints (last_n 10 (angle_history st) ! i)
                         (last_n 10 (angle_history st) ! (i - 1)).
               1 < angle_delta (last_n 10 (angle_history st) ! i)
                     (last_n 10 (angle_history st) ! (i - 1)) joint
               \<and> angle_delta (last_n 10 (angle_history st) ! i)
                     (last_n 10 (angle_history st) ! (i - 1)) joint < 20)
      \<longrightarrow> calculate_quality_score st = Inr 100)"
proof -
  let ?recent = "last_n 10 (angle_history st)"
  let ?c = "consistent_count ?recent"
  let ?t = "total_comparisons ?recent"
  note eq = calculate_quality_score_counts [OF assms]
  have a: "\<exists>s. get_performance_summary st = Inr s \<and> calculate_quality_score st = Inr (quality_score s)"
    by (simp add: get_performance_summary_def eq)
  have ct: "int ?c \<le> int ?t"
    using consistent_le_total [of ?recent] by simp
  have b: "\<exists>n. calculate_quality_score st = Inr n \<and> 0 \<le> n \<and> n \<le> 100"
  proof (cases "length (angle_history st) < 10 \<or> ?t = 0")
    case True
    then show ?thesis by (auto simp: eq)
  next
    case False
    then have "0 < int ?t" by simp
    from float_score_bounds [OF _ ct this] False show ?thesis
      by (simp add: eq)
  qed
  have c: "length (angle_history st) < 10 \<longrightarrow> calculate_quality_score st = Inr 0"
    by (simp add: eq)
  have d: "(\<forall>i \<in> set [1..<length ?recent].
          \<forall>joint \<in> shared_joints (?recent ! i) (?recent ! (i - 1)).
            exact_delta (?recent ! i) (?recent ! (i - 1)) joint = 0)
      \<longrightarrow> calculate_quality_score st = Inr 0"
  proof
    assume "\<forall>i \<in> set [1..<length ?recent].
          \<forall>joint \<in> shared_joints (?recent ! i) (?recent ! (i - 1)).
            exact_delta (?recent ! i) (?recent ! (i - 1)) joint = 0"
    then have "?c = 0" by (rule consistent_count_static)
    then show "calculate_quality_score st = Inr 0"
      by (simp add: eq float_score_zero [simplified])
  qed
  have e: "10 \<le> length (angle_history st)
        \<and> 0 < ?t
        \<and> (\<forall>i \<in> set [1..<length ?recent].
             \<forall>joint \<in> shared_joints (?recent ! i) (?recent ! (i - 1)).
               1 < angle_delta (?recent ! i) (?recent ! (i - 1)) joint
               \<and> angle_delta (?recent ! i) (?recent ! (i - 1)) joint < 20)
      \<longrightarrow> calculate_quality_score st = Inr 100"
  proof (intro impI, elim conjE)
    assume len: "10 \<le> length (angle_history st)" and pos: "0 < ?t"
      and "\<forall>i \<in> set [1..<length ?recent].
             \<forall>joint \<in> shared_joints (?recent ! i) (?recent ! (i - 1)).
               1 < angle_delta (?recent ! i) (?recent ! (i - 1)) joint
               \<and> angle_delta (?recent ! i) (?recent ! (i - 1)) joint < 20"
    then have "?c = ?t" by (intro consistent_count_smooth)
    moreover have "0 < int ?t" using pos by simp
    ultimately show "calculate_quality_score st = Inr 100"
      using len pos float_score_full [of "int ?t"] by (simp add: eq)
  qed
  show ?thesis
    by (intro conjI) (fact a eq b c d e)+
qed

theorem quality_score_truncates_witness:
  "calculate_quality_score (new_analyzer\<lparr>angle_history := static_hold\<rparr>) = Inr 0
   \<and> calculate_quality_score (new_analyzer\<lparr>angle_history := smooth_ramp\<rparr>) = Inr 100
   \<and> calculate_quality_score (new_analyzer\<lparr>angle_history := ramp_then_hold\<rparr>) = Inr 66"
proof -
  let ?s = "new_analyzer\<lparr>angle_history := static_hold\<rparr>"
  let ?m = "new_analyzer\<lparr>angle_history := smooth_ramp\<rparr>"
  let ?r = "new_analyzer\<lparr>angle_history := ramp_then_hold\<rparr>"
  have ws: "\<forall>fr \<in> set (angle_history ?s). wf_frame fr" by code_simp
  have wm: "\<forall>fr \<in> set (angle_history ?m). wf_frame fr" by code_simp
  have wr: "\<forall>fr \<in> set (angle_history ?r). wf_frame fr" by code_simp
  have ps: "\<forall>i \<in> set [1..<length (last_n 10 (angle_history ?s))].
          \<forall>joint \<in> shared_joints (last_n 10 (angle_history ?s) ! i)
                      (last_n 10 (angle_history ?s) ! (i - 1)).
            exact_delta (last_n 10 (angle_history ?s) ! i)
              (last_n 10 (angle_history ?s) ! (i - 1)) joint = 0"
    by code_simp
  have pm: "10 \<le> length (angle_history ?m)
        \<and> 0 < total_comparisons (last_n 10 (angle_history ?m))
        \<and> (\<forall>i \<in> set [1..<length (last_n 10 (angle_history ?m))].
             \<forall>joint \<in> shared_joints (last_n 10 (angle_history ?m) ! i)
                         (last_n 10 (angle_history ?m) ! (i - 1)).
               1 < angle_delta (last_n 10 (angle_history ?m) ! i)
                     (last_n 10 (angle_history ?m) ! (i - 1)) joint
               \<and> angle_delta (last_n 10 (angle_history ?m) ! i)
                     (last_n 10 (angle_history ?m) ! (i - 1)) joint < 20)"
    by code_simp
  have 1: "calculate_quality_score ?s = Inr 0"
    using quality_score_truncates [OF ws] ps by blast
  have 2: "calculate_quality_score ?m = Inr 100"
    using quality_score_truncates [OF wm] pm by blast
  have "(if length (angle_history ?r) < 10 then 0
            else if total_comparisons (last_n 10 (angle_history ?r)) = 0 then 0
            else int_of_float
                   (float_mul
                      (round_binary64
                         (of_int (int (consistent_count (last_n 10 (angle_history ?r))))
                            / of_int (int (total_comparisons (last_n 10 (angle_history ?r))))))
                      100)) = 66"
    by code_simp
  with quality_score_truncates [OF wr] have 3: "calculate_quality_score ?r = Inr 66"
    by simp
  from 1 2 3 show ?thesis by blast
qed

end
